theory Spec2Isabelle
  imports Main
begin

text \<open>
  A shallow embedding of the chat widget's client logic: the token store and the
  authenticated HTTP client of \<open>services/api.ts\<close>, and the response normalizer and the
  paging of property cards of the chat component. Functions of the source become
  functions on an explicit state of the module and its surroundings; what they throw or
  reject with is a value of a sum type.
\<close>

section \<open>JavaScript values\<close>

text \<open>
  The chat widget handles loosely typed JSON replies, so the values of the language are
  embedded as a datatype. Numbers are restricted to integers (timestamps in milliseconds,
  lifetimes in seconds, status codes) plus \<open>NaN\<close>, which \<open>Number\<close> yields on a string that is
  not a numeral; they are taken in the range where the platform's numbers are exact and
  print in plain decimal. Fractional numbers are outside the embedding. An object is an
  association list in which the first binding of a key is the property. A string is a
  list of characters, which stand for the units that \<open>length\<close> and \<open>slice\<close> count.
\<close>

datatype number = NaN | Num int

datatype jsval =
    JUndefined
  | JNull
  | JBool bool
  | JNum number
  | JStr string
  | JArr "jsval list"
  | JObj "(string \<times> jsval) list"

text \<open>
  What a promise rejects with, or a function throws: \<open>new Error(message)\<close>, the
  \<open>TypeError\<close> of a conversion to a primitive, a rejected \<open>fetch\<close>, a rejected
  \<open>res.text()\<close> or \<open>res.json()\<close>.
\<close>

datatype js_error =
    Error string
  | TypeError
  | FetchRejected
  | TextRejected
  | JsonRejected

fun bindE :: "'e + 'a \<Rightarrow> ('a \<Rightarrow> 'e + 'b) \<Rightarrow> 'e + 'b" where
  "bindE (Inl e) f = Inl e"
| "bindE (Inr a) f = f a"

text \<open>\<open>xs.map(f)\<close> where \<open>f\<close> may throw: the first exception ends the traversal.\<close>

fun array_map :: "('a \<Rightarrow> 'e + 'b) \<Rightarrow> 'a list \<Rightarrow> 'e + 'b list" where
  "array_map f [] = Inr []"
| "array_map f (x # xs) = bindE (f x) (\<lambda>y. bindE (array_map f xs) (\<lambda>ys. Inr (y # ys)))"

subsection \<open>Numbers and their decimal text\<close>

definition digit_char :: "nat \<Rightarrow> char" where
  "digit_char d = ''0123456789'' ! d"

definition digit_val :: "char \<Rightarrow> nat option" where
  "digit_val c = map_of
     [(CHR ''0'', 0), (CHR ''1'', 1), (CHR ''2'', 2), (CHR ''3'', 3), (CHR ''4'', 4),
      (CHR ''5'', 5), (CHR ''6'', 6), (CHR ''7'', 7), (CHR ''8'', 8), (CHR ''9'', 9)] c"

fun dec :: "nat \<Rightarrow> string" where
  "dec n = (if n < 10 then [digit_char n] else dec (n div 10) @ [digit_char (n mod 10)])"

declare dec.simps [simp del]

text \<open>\<open>String(n)\<close> for a number.\<close>

fun String_number :: "number \<Rightarrow> string" where
  "String_number NaN = ''NaN''"
| "String_number (Num i) = (if i < 0 then CHR ''-'' # dec (nat (- i)) else dec (nat i))"

fun parse_digits :: "nat \<Rightarrow> string \<Rightarrow> nat option" where
  "parse_digits acc [] = Some acc"
| "parse_digits acc (c # cs) =
     (case digit_val c of None \<Rightarrow> None | Some d \<Rightarrow> parse_digits (10 * acc + d) cs)"

text \<open>
  \<open>Number(s)\<close> on the integer numerals: the empty string is 0, an optional sign followed
  by decimal digits is that integer, everything else is \<open>NaN\<close>. (The platform's function
  also reads fractions, exponents, hexadecimal numerals and surrounding white space; the
  token store never writes such text.)
\<close>

definition Number :: "string \<Rightarrow> number" where
  "Number s =
     (case s of
        [] \<Rightarrow> Num 0
      | c # cs \<Rightarrow>
          if c = CHR ''-'' \<or> c = CHR ''+'' then
            (case cs of
               [] \<Rightarrow> NaN
             | _ # _ \<Rightarrow>
                 (case parse_digits 0 cs of
                    None \<Rightarrow> NaN
                  | Some n \<Rightarrow> Num (if c = CHR ''-'' then - int n else int n)))
          else (case parse_digits 0 s of None \<Rightarrow> NaN | Some n \<Rightarrow> Num (int n)))"

text \<open>\<open>a < b\<close> on numbers: every comparison with \<open>NaN\<close> is false.\<close>

fun js_less :: "number \<Rightarrow> number \<Rightarrow> bool" where
  "js_less (Num a) (Num b) = (a < b)"
| "js_less _ _ = False"

subsection \<open>Conversions and property access\<close>

fun truthy :: "jsval \<Rightarrow> bool" where
  "truthy JUndefined = False"
| "truthy JNull = False"
| "truthy (JBool b) = b"
| "truthy (JNum n) = (n \<noteq> NaN \<and> n \<noteq> Num 0)"
| "truthy (JStr s) = (s \<noteq> [])"
| "truthy (JArr xs) = True"
| "truthy (JObj kvs) = True"

fun js_typeof :: "jsval \<Rightarrow> string" where
  "js_typeof JUndefined = ''undefined''"
| "js_typeof JNull = ''object''"
| "js_typeof (JBool b) = ''boolean''"
| "js_typeof (JNum n) = ''number''"
| "js_typeof (JStr s) = ''string''"
| "js_typeof (JArr xs) = ''object''"
| "js_typeof (JObj kvs) = ''object''"

fun isArray :: "jsval \<Rightarrow> bool" where
  "isArray (JArr xs) = True"
| "isArray _ = False"

text \<open>
  \<open>v?.k\<close>, for the property names this program reads (\<open>label\<close>, \<open>text\<close>, \<open>name\<close>, \<open>title\<close>,
  \<open>value\<close>, \<open>id\<close>, \<open>data\<close>, \<open>buttons\<close>, \<open>options\<close>, \<open>choices\<close>, \<open>dropdown\<close>,
  \<open>select_options\<close>, \<open>properties\<close>): none of them is defined on a prototype, so only an
  object that holds the key has the property.
\<close>

fun js_get :: "jsval \<Rightarrow> string \<Rightarrow> jsval" where
  "js_get (JObj kvs) k = (case map_of kvs k of None \<Rightarrow> JUndefined | Some v \<Rightarrow> v)"
| "js_get _ k = JUndefined"

text \<open>\<open>k in v\<close> for a value \<open>v\<close> that is an object or an array, and such a name \<open>k\<close>.\<close>

fun has_key :: "string \<Rightarrow> jsval \<Rightarrow> bool" where
  "has_key k (JObj kvs) = (k \<in> fst ` set kvs)"
| "has_key k _ = False"

definition nullish :: "jsval \<Rightarrow> bool" where
  "nullish v = (v = JUndefined \<or> v = JNull)"

text \<open>\<open>a ?? b\<close>\<close>

definition coalesce :: "jsval \<Rightarrow> jsval \<Rightarrow> jsval" where
  "coalesce a b = (if nullish a then b else a)"

fun join_comma :: "string list \<Rightarrow> string" where
  "join_comma [] = []"
| "join_comma [s] = s"
| "join_comma (s # t # ss) = s @ '','' @ join_comma (t # ss)"

text \<open>
  \<open>String(v)\<close>. An array is joined with commas, \<open>undefined\<close> and \<open>null\<close> elements giving
  the empty string. A plain object is \<open>[object Object]\<close>, unless it holds a key
  \<open>toString\<close>: a JSON value is never callable, so the conversion to a primitive finds
  no method that returns one and throws a \<open>TypeError\<close>.
\<close>

fun js_String :: "jsval \<Rightarrow> js_error + string"
  and element_strings :: "jsval list \<Rightarrow> js_error + string list" where
  "js_String JUndefined = Inr ''undefined''"
| "js_String JNull = Inr ''null''"
| "js_String (JBool b) = Inr (if b then ''true'' else ''false'')"
| "js_String (JNum n) = Inr (String_number n)"
| "js_String (JStr s) = Inr s"
| "js_String (JArr xs) = bindE (element_strings xs) (\<lambda>ss. Inr (join_comma ss))"
| "js_String (JObj kvs) =
     (if ''toString'' \<in> fst ` set kvs then Inl TypeError else Inr ''[object Object]'')"
| "element_strings [] = Inr []"
| "element_strings (x # xs) =
     bindE (if nullish x then Inr [] else js_String x)
       (\<lambda>s. bindE (element_strings xs) (\<lambda>ss. Inr (s # ss)))"

section \<open>The authenticated HTTP client (services/api.ts)\<close>

text \<open>
  The build-time configuration and the two platform functions the module calls on JSON
  text. \<open>JSON_parse\<close> is \<open>None\<close> where \<open>JSON.parse\<close> throws.
\<close>

record env =
  BASE_URL :: string
  STATIC_BEARER :: string
  API_USERNAME :: string
  API_PASSWORD :: string
  JSON_parse :: "string \<Rightarrow> jsval option"
  JSON_stringify :: "jsval \<Rightarrow> string"

record TokenBundle =
  access_token :: string
  refresh_token :: string
  token_type :: "string option"
  expires_in :: "int option"

text \<open>
  A response: its status, what \<open>res.text()\<close> resolves with (\<open>None\<close>: it rejects) and what
  \<open>res.json()\<close> resolves with, at the type the module casts it to (\<open>None\<close>: it rejects).
  The refresh endpoint's reply is cast to a bundle without \<open>refresh_token\<close>; that field of
  \<open>body_json\<close> is not read there.
\<close>

record response =
  status :: nat
  body_text :: "string option"
  body_json :: "TokenBundle option"

definition ok :: "response \<Rightarrow> bool" where
  "ok res = (200 \<le> status res \<and> status res \<le> 299)"

record request =
  req_url :: string
  req_method :: "string option"
  req_headers :: "(string \<times> string) list"
  req_body :: "string option"

text \<open>The second argument of \<open>http\<close>; an absent argument has every member absent.\<close>

record RequestInit =
  init_method :: "string option"
  init_headers :: "(string \<times> string) list option"
  init_body :: "string option"

datatype origin = FromLogin | FromRefresh | FromDoFetch

datatype fetch_result = Rejected | Resolved response

text \<open>
  One call of \<open>fetch\<close>: which function of the module issued it, the request, and (for
  stating properties only) the access token held at that moment and how the call ended.
\<close>

record fetch_entry =
  origin :: origin
  request :: request
  token_then :: string
  outcome :: fetch_result

text \<open>
  The module's variables and its surroundings: local storage (\<open>storage_ok\<close> is false when
  its methods throw), the clock (\<open>Date.now()\<close> returns \<open>clock ticks\<close> and the next call the next
  reading), the outcomes of the coming \<open>fetch\<close> calls in order (none left: the call
  rejects), and the calls issued so far. One request runs at a time.
\<close>

record world =
  ACCESS_TOKEN :: string
  REFRESH_TOKEN :: string
  ACCESS_EXPIRES_AT :: number
  localStorage :: "string \<rightharpoonup> string"
  storage_ok :: bool
  clock :: "nat \<Rightarrow> int"
  ticks :: nat
  pending :: "fetch_result list"
  fetched :: "fetch_entry list"

definition Date_now :: "world \<Rightarrow> int \<times> world" where
  "Date_now w = (clock w (ticks w), w\<lparr>ticks := Suc (ticks w)\<rparr>)"

text \<open>\<open>localStorage.getItem(k) || d\<close>\<close>

definition getItem_or :: "world \<Rightarrow> string \<Rightarrow> string \<Rightarrow> string" where
  "getItem_or w k d = (case localStorage w k of None \<Rightarrow> d | Some v \<Rightarrow> if v = [] then d else v)"

definition loadTokens :: "world \<Rightarrow> world" where
  "loadTokens w =
     (if \<not> storage_ok w then w
      else
        let a = getItem_or w ''cb_access_token'' [];
            r = getItem_or w ''cb_refresh_token'' [];
            e = Number (getItem_or w ''cb_access_expires_at'' ''0'');
            w1 = w\<lparr>ACCESS_TOKEN := a, REFRESH_TOKEN := r, ACCESS_EXPIRES_AT := e\<rparr>
        in snd (Date_now w1))"

definition saveTokens :: "TokenBundle \<Rightarrow> world \<Rightarrow> world" where
  "saveTokens bundle w =
     (let w1 = w\<lparr>ACCESS_TOKEN := access_token bundle, REFRESH_TOKEN := refresh_token bundle\<rparr>;
          (now, w2) = Date_now w1;
          ttl = (case expires_in bundle of None \<Rightarrow> 60 * 15 | Some s \<Rightarrow> s) * 1000;
          w3 = w2\<lparr>ACCESS_EXPIRES_AT := Num (now + ttl - 5000)\<rparr>
      in if \<not> storage_ok w3 then w3
         else w3\<lparr>localStorage := (localStorage w3)
                (''cb_access_token'' \<mapsto> ACCESS_TOKEN w3,
                 ''cb_refresh_token'' \<mapsto> REFRESH_TOKEN w3,
                 ''cb_access_expires_at'' \<mapsto> String_number (ACCESS_EXPIRES_AT w3))\<rparr>)"

definition next_outcome :: "world \<Rightarrow> fetch_result" where
  "next_outcome w = (case pending w of [] \<Rightarrow> Rejected | r # rs \<Rightarrow> r)"

definition fetch :: "origin \<Rightarrow> request \<Rightarrow> world \<Rightarrow> fetch_result \<times> world" where
  "fetch who req w =
     (next_outcome w,
      w\<lparr>pending := tl (pending w),
        fetched := fetched w @
          [\<lparr>origin = who, request = req, token_then = ACCESS_TOKEN w,
            outcome = next_outcome w\<rparr>]\<rparr>)"

definition login_request :: "env \<Rightarrow> request" where
  "login_request env =
     \<lparr>req_url = BASE_URL env @ ''/auth/login'',
      req_method = Some ''POST'',
      req_headers = [(''Content-Type'', ''application/json'')],
      req_body = Some (JSON_stringify env
        (JObj [(''username'', JStr (API_USERNAME env)), (''password'', JStr (API_PASSWORD env))]))\<rparr>"

text \<open>\<open>ACCESS_TOKEN && Date.now() < ACCESS_EXPIRES_AT\<close>: the clock is read only with a token.\<close>

definition token_fresh :: "world \<Rightarrow> bool \<times> world" where
  "token_fresh w =
     (if ACCESS_TOKEN w = [] then (False, w)
      else let (now, w1) = Date_now w in (js_less (Num now) (ACCESS_EXPIRES_AT w1), w1))"

definition loginIfNeeded :: "env \<Rightarrow> world \<Rightarrow> (js_error + unit) \<times> world" where
  "loginIfNeeded env w =
     (if STATIC_BEARER env \<noteq> [] then
        let (now, w1) = Date_now (w\<lparr>ACCESS_TOKEN := STATIC_BEARER env\<rparr>)
        in (Inr (), w1\<lparr>ACCESS_EXPIRES_AT := Num (now + 3600000)\<rparr>)
      else
        let (fresh, w2) = token_fresh (loadTokens w) in
        if fresh then (Inr (), w2)
        else if API_USERNAME env = [] \<or> API_PASSWORD env = [] then (Inr (), w2)
        else
          (case fetch FromLogin (login_request env) w2 of
             (Rejected, w3) \<Rightarrow> (Inl FetchRejected, w3)
           | (Resolved res, w3) \<Rightarrow>
               if \<not> ok res then
                 (Inl (Error (''Auth login failed: HTTP '' @ dec (status res))), w3)
               else
                 (case body_json res of
                    None \<Rightarrow> (Inl JsonRejected, w3)
                  | Some data \<Rightarrow> (Inr (), saveTokens data w3))))"

definition refresh_request :: "env \<Rightarrow> world \<Rightarrow> request" where
  "refresh_request env w =
     \<lparr>req_url = BASE_URL env @ ''/auth/refresh'',
      req_method = Some ''POST'',
      req_headers = [(''Content-Type'', ''application/json'')],
      req_body = Some (JSON_stringify env (JObj [(''refresh_token'', JStr (REFRESH_TOKEN w))]))\<rparr>"

definition refreshIfPossible :: "env \<Rightarrow> world \<Rightarrow> (js_error + bool) \<times> world" where
  "refreshIfPossible env w =
     (if REFRESH_TOKEN w = [] then (Inr False, w)
      else
        (case fetch FromRefresh (refresh_request env w) w of
           (Rejected, w1) \<Rightarrow> (Inl FetchRejected, w1)
         | (Resolved res, w1) \<Rightarrow>
             if \<not> ok res then (Inr False, w1)
             else
               (case body_json res of
                  None \<Rightarrow> (Inl JsonRejected, w1)
                | Some data \<Rightarrow>
                    (Inr True,
                     saveTokens
                       \<lparr>access_token = access_token data, refresh_token = REFRESH_TOKEN w1,
                        token_type = None, expires_in = expires_in data\<rparr> w1))))"

text \<open>
  The object literal of \<open>doFetch\<close>: the two headers, then the members of \<open>init\<close> spread over
  it, so that a \<open>headers\<close> member of \<open>init\<close> replaces them. The token is read when the
  request is made.
\<close>

definition doFetch_request :: "env \<Rightarrow> string \<Rightarrow> RequestInit \<Rightarrow> world \<Rightarrow> request" where
  "doFetch_request env path init w =
     \<lparr>req_url = BASE_URL env @ path,
      req_method = init_method init,
      req_headers =
        (case init_headers init of
           Some hs \<Rightarrow> hs
         | None \<Rightarrow>
             (''Content-Type'', ''application/json'') #
             (if ACCESS_TOKEN w \<noteq> [] then [(''Authorization'', ''Bearer '' @ ACCESS_TOKEN w)]
              else [])),
      req_body = init_body init\<rparr>"

definition doFetch :: "env \<Rightarrow> string \<Rightarrow> RequestInit \<Rightarrow> world \<Rightarrow> fetch_result \<times> world" where
  "doFetch env path init w = fetch FromDoFetch (doFetch_request env path init w) w"

text \<open>What \<open>http\<close> makes of the response it ends with (from \<open>if (!res.ok)\<close> on).\<close>

definition http_result :: "env \<Rightarrow> response \<Rightarrow> js_error + jsval" where
  "http_result env res =
     (if \<not> ok res then
        let detail = (case body_text res of None \<Rightarrow> [] | Some txt \<Rightarrow> take 500 txt)
        in Inl (Error (''HTTP '' @ dec (status res) @
                       (if detail \<noteq> [] then '': '' @ detail else [])))
      else
        (case body_text res of
           None \<Rightarrow> Inl TextRejected
         | Some txt \<Rightarrow>
             if txt = [] then Inr (JObj [])
             else
               (case JSON_parse env txt of
                  None \<Rightarrow> Inl (Error ''Invalid JSON response'')
                | Some json \<Rightarrow> Inr json)))"

text \<open>\<open>loginIfNeeded().catch(() => {})\<close> drops the error and keeps what the call did.\<close>

definition http :: "env \<Rightarrow> string \<Rightarrow> RequestInit \<Rightarrow> world \<Rightarrow> (js_error + jsval) \<times> world" where
  "http env path init w =
     (let w1 = snd (loginIfNeeded env w) in
      case doFetch env path init w1 of
        (Rejected, w2) \<Rightarrow> (Inl FetchRejected, w2)
      | (Resolved res, w2) \<Rightarrow>
          if status res = 401 \<and> STATIC_BEARER env = [] then
            (case refreshIfPossible env w2 of
               (Inl e, w3) \<Rightarrow> (Inl e, w3)
             | (Inr refreshed, w3) \<Rightarrow>
                 if refreshed then
                   (case doFetch env path init w3 of
                      (Rejected, w4) \<Rightarrow> (Inl FetchRejected, w4)
                    | (Resolved res2, w4) \<Rightarrow> (http_result env res2, w4))
                 else (http_result env res, w3))
          else (http_result env res, w2))"

definition no_init :: RequestInit where
  "no_init = \<lparr>init_method = None, init_headers = None, init_body = None\<rparr>"

definition post_init :: "string \<Rightarrow> RequestInit" where
  "post_init b = \<lparr>init_method = Some ''POST'', init_headers = None, init_body = Some b\<rparr>"

definition getChatbotOptions :: "env \<Rightarrow> world \<Rightarrow> (js_error + jsval) \<times> world" where
  "getChatbotOptions env w = http env ''/chatbot/get-chatbot-options'' no_init w"

definition extractParams :: "env \<Rightarrow> string \<Rightarrow> world \<Rightarrow> (js_error + jsval) \<times> world" where
  "extractParams env message w =
     http env ''/chatbot/extract-params''
       (post_init (JSON_stringify env (JObj [(''message'', JStr message)]))) w"

text \<open>
  \<open>propertySearch\<close>, given the query string that \<open>URLSearchParams\<close> builds from the
  query (empty, or \<open>?\<close> and the encoded pairs).
\<close>

definition propertySearch :: "env \<Rightarrow> string \<Rightarrow> world \<Rightarrow> (js_error + jsval) \<times> world" where
  "propertySearch env qs w = http env (''/chatbot/property-search'' @ qs) no_init w"

text \<open>The callback \<open>sendChat\<close> chains on the reply.\<close>

definition sendChat_then :: "jsval \<Rightarrow> jsval" where
  "sendChat_then resp =
     (if truthy resp \<and> js_typeof resp = ''object'' \<and> has_key ''data'' resp
      then js_get resp ''data'' else resp)"

definition sendChat :: "env \<Rightarrow> jsval \<Rightarrow> world \<Rightarrow> (js_error + jsval) \<times> world" where
  "sendChat env body w =
     (case http env ''/chatbot'' (post_init (JSON_stringify env body)) w of
        (Inl e, w1) \<Rightarrow> (Inl e, w1)
      | (Inr resp, w1) \<Rightarrow> (Inr (sendChat_then resp), w1))"

text \<open>The calls of \<open>fetch\<close> that \<open>doFetch\<close> issued between two states of the world.\<close>

definition doFetches :: "world \<Rightarrow> world \<Rightarrow> fetch_entry list" where
  "doFetches w w' =
     filter (\<lambda>e. origin e = FromDoFetch) (drop (length (fetched w)) (fetched w'))"

text \<open>The calls of \<open>fetch\<close> between two states of the world that went to the URL of \<open>path\<close>.\<close>

definition target_fetches :: "env \<Rightarrow> string \<Rightarrow> world \<Rightarrow> world \<Rightarrow> fetch_entry list" where
  "target_fetches env path w w' =
     filter (\<lambda>e. req_url (request e) = BASE_URL env @ path)
       (drop (length (fetched w)) (fetched w'))"

section \<open>The chat component (components/Chatbot.tsx)\<close>

record QuickButton =
  btn_label :: string
  btn_value :: string

datatype sender = Bot | You

text \<open>A message of the list; its random \<open>id\<close> is left out.\<close>

record Message =
  sender :: sender
  msg_text :: string
  html :: "string option"
  msg_buttons :: "QuickButton list option"
  msg_dropdown :: "QuickButton list option"

subsection \<open>The response normalizer\<close>

text \<open>\<open>o?.label ?? o?.text ?? o?.name ?? o?.title ?? o?.value ?? o?.id ?? ''\<close>\<close>

definition option_label :: "jsval \<Rightarrow> jsval" where
  "option_label opt =
     coalesce (coalesce (coalesce (coalesce (coalesce (coalesce
       (js_get opt ''label'') (js_get opt ''text'')) (js_get opt ''name''))
       (js_get opt ''title'')) (js_get opt ''value'')) (js_get opt ''id'')) (JStr [])"

text \<open>\<open>o?.value ?? o?.id ?? o?.label ?? o?.text ?? o?.name ?? ''\<close>\<close>

definition option_value :: "jsval \<Rightarrow> jsval" where
  "option_value opt =
     coalesce (coalesce (coalesce (coalesce (coalesce
       (js_get opt ''value'') (js_get opt ''id'')) (js_get opt ''label''))
       (js_get opt ''text'')) (js_get opt ''name'')) (JStr [])"

definition button_of :: "jsval \<Rightarrow> jsval \<Rightarrow> js_error + QuickButton" where
  "button_of l v =
     bindE (js_String l) (\<lambda>ls. bindE (js_String v) (\<lambda>vs.
       Inr \<lparr>btn_label = ls, btn_value = vs\<rparr>))"

definition normalizeOptions :: "jsval \<Rightarrow> js_error + QuickButton list" where
  "normalizeOptions arr =
     (case arr of
        JArr xs \<Rightarrow>
          if (case xs of [] \<Rightarrow> False | x # _ \<Rightarrow> js_typeof x = ''string'') then
            array_map (\<lambda>s. button_of s s) xs
          else array_map (\<lambda>opt. button_of (option_label opt) (option_value opt)) xs
      | _ \<Rightarrow> Inr [])"

definition rawButtons :: "jsval \<Rightarrow> jsval" where
  "rawButtons resp =
     (if isArray (js_get resp ''buttons'') then js_get resp ''buttons''
      else if isArray (js_get resp ''options'') then js_get resp ''options''
      else if isArray (js_get resp ''choices'') then js_get resp ''choices''
      else JNull)"

definition rawDropdown :: "jsval \<Rightarrow> jsval" where
  "rawDropdown resp =
     (if isArray (js_get resp ''dropdown'') then js_get resp ''dropdown''
      else if isArray (js_get resp ''select_options'') then js_get resp ''select_options''
      else JNull)"

text \<open>\<open>raw ? normalizeOptions(raw) : null\<close>\<close>

definition normalized :: "jsval \<Rightarrow> js_error + QuickButton list option" where
  "normalized raw =
     (if truthy raw then bindE (normalizeOptions raw) (\<lambda>bs. Inr (Some bs)) else Inr None)"

definition buttons :: "jsval \<Rightarrow> js_error + QuickButton list option" where
  "buttons resp = normalized (rawButtons resp)"

definition dropdown :: "jsval \<Rightarrow> js_error + QuickButton list option" where
  "dropdown resp = normalized (rawDropdown resp)"

subsection \<open>The message list and the paging of property cards\<close>

record pagination =
  currentPage :: nat
  itemsPerPage :: nat

text \<open>
  The component's state that the paging touches: the message list, the array held by
  \<open>allPropertiesRef\<close>, the \<open>pagination\<close> state (what \<open>setPagination\<close> updates and the next
  render reads), and the \<open>onclick\<close> handler of the element that
  \<open>document.getElementById('chatbot-show-more')\<close> finds. A handler is \<open>showMore\<close> of one
  render of the component, and is given by the value of \<open>pagination\<close> that this render
  holds: within a render \<open>pagination\<close> is a constant.
\<close>

record ui =
  messages :: "Message list"
  allProperties :: "jsval list"
  pagination_state :: pagination
  show_more_onclick :: "pagination option"

text \<open>\<open>append\<close>: \<open>html || null\<close> turns the empty string into \<open>null\<close>.\<close>

definition append_message ::
  "sender \<Rightarrow> string \<Rightarrow> string option \<Rightarrow> QuickButton list option \<Rightarrow>
   QuickButton list option \<Rightarrow> ui \<Rightarrow> ui" where
  "append_message who txt h bs dd u =
     u\<lparr>messages := messages u @
        [\<lparr>sender = who, msg_text = txt,
          html = (case h of None \<Rightarrow> None | Some x \<Rightarrow> if x = [] then None else Some x),
          msg_buttons = bs, msg_dropdown = dd\<rparr>]\<rparr>"

definition appendBot ::
  "string \<Rightarrow> string option \<Rightarrow> QuickButton list option \<Rightarrow> QuickButton list option \<Rightarrow>
   ui \<Rightarrow> ui" where
  "appendBot txt h bs dd u = append_message Bot txt h bs dd u"

text \<open>\<open>xs.slice(start, stop)\<close> for indices that are not negative.\<close>

definition slice :: "nat \<Rightarrow> nat \<Rightarrow> 'a list \<Rightarrow> 'a list" where
  "slice start stop xs = take (stop - start) (drop start xs)"

definition show_more_button :: "nat \<Rightarrow> string" where
  "show_more_button remaining =
     (if remaining > 0 then
        ''<div style=\"text-align:center; margin:12px 0;\"><button id=\"chatbot-show-more\" class=\"chatbot-step-btn\">Show More Properties ('' @
        dec remaining @ '' more)</button></div>''
      else [])"

text \<open>
  The template literal of one card is a parameter (it formats the price with the
  locale); it throws where a member of the item does not convert to a primitive. Reading
  a member of an item that is \<open>null\<close> or \<open>undefined\<close> throws.
\<close>

definition card_of :: "(jsval \<Rightarrow> js_error + string) \<Rightarrow> jsval \<Rightarrow> js_error + string" where
  "card_of tmpl item = (if nullish item then Inl TypeError else tmpl item)"

text \<open>
  \<open>renderProperties\<close> of the render that holds \<open>pag\<close> as its \<open>pagination\<close>: the markup of
  the cards and of the button, and the timer, which binds the button in the document to
  \<open>showMore\<close> of this render. (The timer fires once the markup is in the document; where
  the document holds no such button, there is nothing to click.) A card that throws ends
  the call before the timer is started.
\<close>

definition renderProperties ::
  "(jsval \<Rightarrow> js_error + string) \<Rightarrow> pagination \<Rightarrow> jsval list \<Rightarrow> nat \<Rightarrow> ui \<Rightarrow> (js_error + string) \<times> ui" where
  "renderProperties tmpl pag items remaining u =
     (case array_map (card_of tmpl) items of
        Inl e \<Rightarrow> (Inl e, u)
      | Inr cards \<Rightarrow>
          (Inr (''<div>'' @ concat cards @ show_more_button remaining @ ''</div>''),
           u\<lparr>show_more_onclick := Some pag\<rparr>))"

text \<open>
  \<open>showMore\<close> of the render that holds \<open>pag\<close> as its \<open>pagination\<close>. It reads the page from
  \<open>pag\<close>, a constant of the render, and writes the next page to the state with
  \<open>setPagination\<close>, which the renders after it read.
\<close>

definition showMore :: "(jsval \<Rightarrow> js_error + string) \<Rightarrow> pagination \<Rightarrow> ui \<Rightarrow> (js_error + unit) \<times> ui" where
  "showMore tmpl pag u =
     (let nextPage = currentPage pag + 1;
          start = (nextPage - 1) * itemsPerPage pag;
          stop = min (start + itemsPerPage pag) (length (allProperties u));
          next = slice start stop (allProperties u)
      in if length next = 0 then (Inr (), u)
         else
           let remaining = length (allProperties u) - stop in
           (case renderProperties tmpl pag next remaining u of
              (Inl e, u1) \<Rightarrow> (Inl e, u1)
            | (Inr h, u1) \<Rightarrow>
                (Inr (),
                 (appendBot [] (Some h) None None u1)
                   \<lparr>pagination_state := (pagination_state u1)\<lparr>currentPage := nextPage\<rparr>\<rparr>)))"

text \<open>A click on the button: the handler bound to it runs.\<close>

definition click_show_more ::
  "(jsval \<Rightarrow> js_error + string) \<Rightarrow> ui \<Rightarrow> (js_error + unit) \<times> ui" where
  "click_show_more tmpl u =
     (case show_more_onclick u of None \<Rightarrow> (Inr (), u) | Some pag \<Rightarrow> showMore tmpl pag u)"

definition found_text :: "nat \<Rightarrow> string \<Rightarrow> string" where
  "found_text count suffix =
     ''Found '' @ dec count @ '' '' @ (if count = 1 then ''property'' else ''properties'') @ suffix"

text \<open>
  The first page, common to \<open>sendPrompt\<close> and \<open>runPropertySearch\<close>:
  \<open>renderProperties(list.slice(0, 3), count > 3 ? count - 3 : 0)\<close>, appended under the
  line that counts the properties.
\<close>

definition first_page ::
  "(jsval \<Rightarrow> js_error + string) \<Rightarrow> pagination \<Rightarrow> string \<Rightarrow> jsval list \<Rightarrow> ui \<Rightarrow> (js_error + unit) \<times> ui" where
  "first_page tmpl pag suffix list u =
     (let count = length list in
      case renderProperties tmpl pag (slice 0 3 list) (if count > 3 then count - 3 else 0) u of
        (Inl e, u1) \<Rightarrow> (Inl e, u1)
      | (Inr h, u1) \<Rightarrow> (Inr (), appendBot (found_text count suffix) (Some h) None None u1))"

definition properties_of :: "jsval \<Rightarrow> jsval list" where
  "properties_of resp = (case js_get resp ''properties'' of JArr xs \<Rightarrow> xs | _ \<Rightarrow> [])"

definition reset_paging :: "jsval list \<Rightarrow> ui \<Rightarrow> ui" where
  "reset_paging list u =
     u\<lparr>allProperties := list, pagination_state := (pagination_state u)\<lparr>currentPage := 1\<rparr>\<rparr>"

text \<open>
  The end of the reply handler of \<open>sendPrompt\<close> (from \<open>// Render properties if provided\<close>),
  in the render that holds \<open>pag\<close>.
\<close>

definition sendPrompt_properties ::
  "(jsval \<Rightarrow> js_error + string) \<Rightarrow> pagination \<Rightarrow> jsval \<Rightarrow> ui \<Rightarrow> (js_error + unit) \<times> ui" where
  "sendPrompt_properties tmpl pag resp u =
     (let list = properties_of resp; u1 = reset_paging list u in
      if length list > 0 then first_page tmpl pag '':'' list u1 else (Inr (), u1))"

text \<open>The reply handler of \<open>runPropertySearch\<close>, in the render that holds \<open>pag\<close>.\<close>

definition runPropertySearch_then ::
  "(jsval \<Rightarrow> js_error + string) \<Rightarrow> pagination \<Rightarrow> jsval \<Rightarrow> ui \<Rightarrow> (js_error + unit) \<times> ui" where
  "runPropertySearch_then tmpl pag data u =
     (let list = properties_of data; u1 = reset_paging list u in
      if length list = 0 then
        (Inr (), appendBot ''No properties found for your criteria.'' None None None u1)
      else first_page tmpl pag '' for your criteria:'' list u1)"

section \<open>Auxiliary notions for the statements\<close>

text \<open>
  The first of a list of values that is neither \<open>undefined\<close> nor \<open>null\<close>, and the empty
  string when there is none: the reading of ``the first defined of ..., else the empty
  string'' under which an absent and a \<open>null\<close> member count alike.
\<close>

definition first_defined :: "jsval list \<Rightarrow> jsval" where
  "first_defined vs = (case find (\<lambda>v. \<not> nullish v) vs of None \<Rightarrow> JStr [] | Some v \<Rightarrow> v)"

text \<open>The expiry that \<open>saveTokens\<close> computes for a bundle saved in world \<open>w\<close>.\<close>

definition expiry_of :: "TokenBundle \<Rightarrow> world \<Rightarrow> number" where
  "expiry_of b w =
     Num (clock w (ticks w) + (case expires_in b of None \<Rightarrow> 900 | Some s \<Rightarrow> s) * 1000 - 5000)"

text \<open>After \<open>loadTokens\<close>: an access token is held and the clock reads less than its expiry.\<close>

definition stored_token_valid :: "world \<Rightarrow> bool" where
  "stored_token_valid w =
     (let w1 = loadTokens w
      in ACCESS_TOKEN w1 \<noteq> [] \<and> js_less (Num (clock w1 (ticks w1))) (ACCESS_EXPIRES_AT w1))"

text \<open>The entry that a call of \<open>doFetch\<close> in world \<open>w\<close> adds to the calls issued.\<close>

definition doFetch_entry :: "env \<Rightarrow> string \<Rightarrow> RequestInit \<Rightarrow> world \<Rightarrow> fetch_entry" where
  "doFetch_entry env path init w =
     \<lparr>origin = FromDoFetch, request = doFetch_request env path init w,
      token_then = ACCESS_TOKEN w, outcome = next_outcome w\<rparr>"

text \<open>
  Every fetch that \<open>doFetch\<close> issued between two states of the world carries the content
  type and, exactly when the access token held at that moment is not empty, that token as
  bearer.
\<close>

definition bearer_headers :: "world \<Rightarrow> world \<Rightarrow> bool" where
  "bearer_headers w w' =
     (\<forall>e \<in> set (doFetches w w').
        req_headers (request e) =
          (''Content-Type'', ''application/json'') #
          (if token_then e \<noteq> [] then [(''Authorization'', ''Bearer '' @ token_then e)]
           else []))"


subsection \<open>Concrete runs\<close>

text \<open>
  A configuration without static token and without credentials, and a world after a
  page load: storage holds an expired access token and a refresh token; the server will
  answer 401, then a fresh access token, then the chat reply.
\<close>

definition example_parse :: "string \<Rightarrow> jsval option" where
  "example_parse s = map_of
     [(''null'', JNull),
      (''{\"success\":true,\"data\":{\"result\":\"Hello\"}}'',
       JObj [(''success'', JBool True), (''data'', JObj [(''result'', JStr ''Hello'')])])] s"

definition example_stringify :: "jsval \<Rightarrow> string" where
  "example_stringify v =
     (case v of
        JObj [(k, JStr x)] \<Rightarrow> ''{\"'' @ k @ ''\":\"'' @ x @ ''\"}''
      | JObj [] \<Rightarrow> ''{}''
      | _ \<Rightarrow> ''null'')"

definition example_env :: env where
  "example_env =
     \<lparr>BASE_URL = ''http://127.0.0.1:8000'', STATIC_BEARER = [], API_USERNAME = [],
      API_PASSWORD = [], JSON_parse = example_parse, JSON_stringify = example_stringify\<rparr>"

definition static_env :: env where
  "static_env = example_env\<lparr>STATIC_BEARER := ''chatbot-api-token-2024''\<rparr>"

definition login_env :: env where
  "login_env = example_env\<lparr>API_USERNAME := ''bot'', API_PASSWORD := ''secret''\<rparr>"

definition fresh_bundle :: TokenBundle where
  "fresh_bundle =
     \<lparr>access_token = ''A1'', refresh_token = ''R2'', token_type = Some ''bearer'',
      expires_in = Some 900\<rparr>"

definition example_world :: world where
  "example_world =
     \<lparr>ACCESS_TOKEN = [], REFRESH_TOKEN = [], ACCESS_EXPIRES_AT = Num 15,
      localStorage = [''cb_access_token'' \<mapsto> ''A0'', ''cb_refresh_token'' \<mapsto> ''R1'',
                      ''cb_access_expires_at'' \<mapsto> ''1000''],
      storage_ok = True, clock = (\<lambda>n. 1700000000000 + int n), ticks = 0,
      pending =
        [Resolved \<lparr>status = 401, body_text = Some ''expired'', body_json = None\<rparr>,
         Resolved \<lparr>status = 200, body_text = Some [], body_json = Some fresh_bundle\<rparr>,
         Resolved \<lparr>status = 200,
           body_text = Some ''{\"success\":true,\"data\":{\"result\":\"Hello\"}}'',
           body_json = None\<rparr>],
      fetched = []\<rparr>"

text \<open>The component before any reply, and a reply that lists seven properties.\<close>

definition initial_ui :: ui where
  "initial_ui = \<lparr>messages = [], allProperties = [],
     pagination_state = \<lparr>currentPage = 1, itemsPerPage = 3\<rparr>, show_more_onclick = None\<rparr>"

definition listing :: "int \<Rightarrow> jsval" where
  "listing k = JObj [(''varMLS'', JNum (Num k))]"

definition seven_listings :: jsval where
  "seven_listings = JObj [(''properties'',
     JArr [listing 1, listing 2, listing 3, listing 4, listing 5, listing 6, listing 7])]"

section \<open>Decimal text of numbers\<close>

lemma digit_val_digit_char: "d < 10 \<Longrightarrow> digit_val (digit_char d) = Some d"
proof -
  assume "d < 10"
  then have "d \<in> {0,1,2,3,4,5,6,7,8,9}" by auto
  then show ?thesis
    by (auto simp: digit_val_def digit_char_def)
qed

lemma parse_digits_append:
  "parse_digits acc (xs @ ys) =
     (case parse_digits acc xs of None \<Rightarrow> None | Some a \<Rightarrow> parse_digits a ys)"
  by (induction xs arbitrary: acc) (auto split: option.splits)

lemma parse_digits_dec: "parse_digits acc (dec n) = Some (acc * 10 ^ length (dec n) + n)"
proof (induction n arbitrary: acc rule: dec.induct)
  case (1 n)
  show ?case
  proof (cases "n < 10")
    case True
    then show ?thesis by (simp add: dec.simps [of n] digit_val_digit_char)
  next
    case False
    have m: "n mod 10 < 10" by simp
    from False 1 [of acc] show ?thesis
      by (simp add: dec.simps [of n] parse_digits_append digit_val_digit_char [OF m] algebra_simps)
  qed
qed

lemma dec_not_Nil: "dec n \<noteq> []"
  by (subst dec.simps) simp

lemma digit_char_not_sign: "d < 10 \<Longrightarrow> digit_char d \<noteq> CHR ''-'' \<and> digit_char d \<noteq> CHR ''+''"
proof -
  assume "d < 10"
  then have "d \<in> {0,1,2,3,4,5,6,7,8,9}" by auto
  then show ?thesis by (auto simp: digit_char_def)
qed

lemma hd_dec: "hd (dec n) \<noteq> CHR ''-'' \<and> hd (dec n) \<noteq> CHR ''+''"
proof (induction n rule: dec.induct)
  case (1 n)
  show ?case
  proof (cases "n < 10")
    case True
    then show ?thesis using digit_char_not_sign [of n] by (simp add: dec.simps [of n])
  next
    case False
    with 1 show ?thesis by (simp add: dec.simps [of n] dec_not_Nil)
  qed
qed

lemma Number_dec: "Number (dec n) = Num (int n)"
proof -
  obtain c cs where d: "dec n = c # cs" using dec_not_Nil [of n] by (cases "dec n") auto
  with hd_dec [of n] have "c \<noteq> CHR ''-''" "c \<noteq> CHR ''+''" by auto
  moreover have "parse_digits 0 (c # cs) = Some n"
    using parse_digits_dec [of 0 n] d by simp
  ultimately show ?thesis unfolding Number_def d by simp
qed

text \<open>Reading back the text of an integer gives the integer.\<close>

lemma Number_String_number: "Number (String_number (Num i)) = Num i"
proof (cases "i < 0")
  case True
  obtain c cs where d: "dec (nat (- i)) = c # cs"
    using dec_not_Nil [of "nat (- i)"] by (cases "dec (nat (- i))") auto
  have "parse_digits 0 (c # cs) = Some (nat (- i))"
    using parse_digits_dec [of 0 "nat (- i)"] d by simp
  with True d show ?thesis by (simp add: Number_def)
next
  case False
  then show ?thesis by (simp add: Number_dec)
qed

lemma String_number_not_Nil: "String_number n \<noteq> []"
  by (cases n) (auto simp: dec_not_Nil)

section \<open>The response normalizer\<close>

lemma first_defined_Cons:
  "first_defined (v # vs) = coalesce v (first_defined vs)"
  by (simp add: first_defined_def coalesce_def)

lemma coalesce_assoc: "coalesce (coalesce a b) c = coalesce a (coalesce b c)"
  by (simp add: coalesce_def)

lemma first_defined_Nil: "first_defined [] = JStr []"
  by (simp add: first_defined_def)

lemma option_label_first_defined:
  "option_label opt =
     first_defined [js_get opt ''label'', js_get opt ''text'', js_get opt ''name'',
                    js_get opt ''title'', js_get opt ''value'', js_get opt ''id'']"
  unfolding option_label_def first_defined_Cons first_defined_Nil coalesce_assoc ..

lemma option_value_first_defined:
  "option_value opt =
     first_defined [js_get opt ''value'', js_get opt ''id'', js_get opt ''label'',
                    js_get opt ''text'', js_get opt ''name'']"
  unfolding option_value_def first_defined_Cons first_defined_Nil coalesce_assoc ..

text \<open>A traversal succeeds with \<open>ys\<close> exactly when every element maps to its place in \<open>ys\<close>.\<close>

lemma array_map_Inr:
  "array_map f xs = Inr ys \<longleftrightarrow> list_all2 (\<lambda>x y. f x = Inr y) xs ys"
proof (induction xs arbitrary: ys)
  case Nil
  show ?case by auto
next
  case (Cons x xs)
  show ?case
  proof (cases "f x")
    case (Inl e)
    then show ?thesis by (auto simp: list_all2_Cons1)
  next
    case fx: (Inr y)
    show ?thesis
    proof (cases "array_map f xs")
      case (Inl e)
      with Cons fx show ?thesis by (auto simp: list_all2_Cons1)
    next
      case (Inr zs)
      with Cons [of zs] Cons fx show ?thesis by (auto simp: list_all2_Cons1)
    qed
  qed
qed

lemma button_of_Inr:
  "button_of l v = Inr b \<longleftrightarrow> js_String l = Inr (btn_label b) \<and> js_String v = Inr (btn_value b)"
  by (cases "js_String l"; cases "js_String v") (auto simp: button_of_def)

text \<open>
  C3. \<open>normalizeOptions\<close> returns the empty list for a value that is not an array and for
  the empty array. For an array whose first element is a string, the result is the list
  \<open>bs\<close> exactly when every element \<open>x\<close> has the button with label \<open>String(x)\<close> and value
  \<open>String(x)\<close> at its place. For any other non-empty array, the result is \<open>bs\<close> exactly
  when every element has at its place the button whose label is the text of the first
  defined of its \<open>label\<close>, \<open>text\<close>, \<open>name\<close>, \<open>title\<close>, \<open>value\<close>, \<open>id\<close> (else of the empty
  string) and whose value is the text of the first defined of its \<open>value\<close>, \<open>id\<close>,
  \<open>label\<close>, \<open>text\<close>, \<open>name\<close> (else of the empty string). A member counts as defined when
  it is neither \<open>undefined\<close> nor \<open>null\<close>, which is what \<open>??\<close> tests.
\<close>

theorem normalizeOptions_cases:
  "(\<not> isArray v \<longrightarrow> normalizeOptions v = Inr []) \<and>
   normalizeOptions (JArr []) = Inr [] \<and>
   (normalizeOptions (JArr (JStr s # xs)) = Inr bs \<longleftrightarrow>
      list_all2 (\<lambda>x b. js_String x = Inr (btn_label b) \<and> js_String x = Inr (btn_value b))
        (JStr s # xs) bs) \<and>
   (js_typeof x \<noteq> ''string'' \<longrightarrow>
      (normalizeOptions (JArr (x # xs)) = Inr bs \<longleftrightarrow>
         list_all2 (\<lambda>opt b.
            js_String (first_defined [js_get opt ''label'', js_get opt ''text'',
               js_get opt ''name'', js_get opt ''title'', js_get opt ''value'',
               js_get opt ''id'']) = Inr (btn_label b) \<and>
            js_String (first_defined [js_get opt ''value'', js_get opt ''id'',
               js_get opt ''label'', js_get opt ''text'', js_get opt ''name'']) =
              Inr (btn_value b))
           (x # xs) bs))"
proof (intro conjI impI)
  assume "\<not> isArray v"
  then show "normalizeOptions v = Inr []"
    by (cases v) (simp_all add: normalizeOptions_def)
next
  show "normalizeOptions (JArr []) = Inr []"
    by (simp add: normalizeOptions_def)
next
  have "normalizeOptions (JArr (JStr s # xs)) = array_map (\<lambda>x. button_of x x) (JStr s # xs)"
    by (simp add: normalizeOptions_def)
  then show "normalizeOptions (JArr (JStr s # xs)) = Inr bs \<longleftrightarrow>
      list_all2 (\<lambda>x b. js_String x = Inr (btn_label b) \<and> js_String x = Inr (btn_value b))
        (JStr s # xs) bs"
    by (simp only: array_map_Inr button_of_Inr)
next
  assume "js_typeof x \<noteq> ''string''"
  then have "normalizeOptions (JArr (x # xs)) =
      array_map (\<lambda>opt. button_of (option_label opt) (option_value opt)) (x # xs)"
    by (simp add: normalizeOptions_def)
  then show "normalizeOptions (JArr (x # xs)) = Inr bs \<longleftrightarrow>
         list_all2 (\<lambda>opt b.
            js_String (first_defined [js_get opt ''label'', js_get opt ''text'',
               js_get opt ''name'', js_get opt ''title'', js_get opt ''value'',
               js_get opt ''id'']) = Inr (btn_label b) \<and>
            js_String (first_defined [js_get opt ''value'', js_get opt ''id'',
               js_get opt ''label'', js_get opt ''text'', js_get opt ''name'']) =
              Inr (btn_value b))
           (x # xs) bs"
    by (simp only: array_map_Inr button_of_Inr option_label_first_defined
        option_value_first_defined)
qed

text \<open>
  A number is not an array; an array of a string and a number gives both as their text;
  an option without \<open>label\<close> (it is \<open>null\<close>) takes its label from \<open>text\<close> and its value
  from \<open>id\<close>.
\<close>

theorem normalizeOptions_cases_witness:
  "normalizeOptions (JNum (Num 5)) = Inr [] \<and>
   normalizeOptions (JArr [JStr ''Yes'', JNum (Num 2)]) =
     Inr [\<lparr>btn_label = ''Yes'', btn_value = ''Yes''\<rparr>, \<lparr>btn_label = ''2'', btn_value = ''2''\<rparr>] \<and>
   normalizeOptions
     (JArr [JObj [(''label'', JNull), (''text'', JStr ''T''), (''id'', JNum (Num 7))]]) =
     Inr [\<lparr>btn_label = ''T'', btn_value = ''7''\<rparr>]"
  using normalizeOptions_cases
    [of "JNum (Num 5)" "''Yes''" "[JNum (Num 2)]"
        "[\<lparr>btn_label = ''Yes'', btn_value = ''Yes''\<rparr>, \<lparr>btn_label = ''2'', btn_value = ''2''\<rparr>]"
        "JNull"]
    normalizeOptions_cases
    [of "JNum (Num 5)" "''s''" "[]" "[\<lparr>btn_label = ''T'', btn_value = ''7''\<rparr>]"
        "JObj [(''label'', JNull), (''text'', JStr ''T''), (''id'', JNum (Num 7))]"]
  by (simp add: first_defined_def nullish_def dec.simps digit_char_def)

lemma truthy_isArray: "isArray v \<Longrightarrow> truthy v"
  by (cases v) simp_all

text \<open>
  C2. The buttons of a reply are the normalized first array among its members \<open>buttons\<close>,
  \<open>options\<close>, \<open>choices\<close>, and there are none (\<open>null\<close>) when none of the three is an array;
  its dropdown is the normalized first array among \<open>dropdown\<close>, \<open>select_options\<close>.
\<close>

theorem button_source:
  "buttons resp =
     (case find isArray [js_get resp ''buttons'', js_get resp ''options'', js_get resp ''choices''] of
        None \<Rightarrow> Inr None
      | Some arr \<Rightarrow> bindE (normalizeOptions arr) (\<lambda>bs. Inr (Some bs))) \<and>
   dropdown resp =
     (case find isArray [js_get resp ''dropdown'', js_get resp ''select_options''] of
        None \<Rightarrow> Inr None
      | Some arr \<Rightarrow> bindE (normalizeOptions arr) (\<lambda>bs. Inr (Some bs)))"
  by (simp add: buttons_def dropdown_def rawButtons_def rawDropdown_def normalized_def
      truthy_isArray)

theorem button_source_witness:
  "buttons (JObj [(''buttons'', JStr ''none''), (''choices'', JArr [JStr ''Yes'']),
                  (''select_options'', JArr [])]) =
     Inr (Some [\<lparr>btn_label = ''Yes'', btn_value = ''Yes''\<rparr>]) \<and>
   dropdown (JObj [(''buttons'', JStr ''none''), (''choices'', JArr [JStr ''Yes'']),
                   (''select_options'', JArr [])]) = Inr (Some []) \<and>
   buttons (JObj [(''options'', JNull)]) = Inr None"
  using button_source [of "JObj [(''buttons'', JStr ''none''), (''choices'', JArr [JStr ''Yes'']),
                  (''select_options'', JArr [])]"]
    button_source [of "JObj [(''options'', JNull)]"]
  by (simp add: normalizeOptions_def button_of_def)

section \<open>The token store\<close>

lemma saveTokens_fields:
  "ACCESS_TOKEN (saveTokens b w) = access_token b"
  "REFRESH_TOKEN (saveTokens b w) = refresh_token b"
  "ACCESS_EXPIRES_AT (saveTokens b w) = expiry_of b w"
  "storage_ok (saveTokens b w) = storage_ok w"
  "ticks (saveTokens b w) = Suc (ticks w)"
  "clock (saveTokens b w) = clock w"
  "pending (saveTokens b w) = pending w"
  "fetched (saveTokens b w) = fetched w"
  by (simp_all add: saveTokens_def Date_now_def Let_def expiry_of_def split: option.splits)

lemma saveTokens_storage:
  "storage_ok w \<Longrightarrow>
   localStorage (saveTokens b w) =
     (localStorage w)(''cb_access_token'' \<mapsto> access_token b,
        ''cb_refresh_token'' \<mapsto> refresh_token b,
        ''cb_access_expires_at'' \<mapsto> String_number (expiry_of b w))"
  "\<not> storage_ok w \<Longrightarrow> localStorage (saveTokens b w) = localStorage w"
  by (simp_all add: saveTokens_def Date_now_def Let_def expiry_of_def del: String_number.simps
      split: option.splits)

lemma getItem_or_same:
  "getItem_or w k [] = (case localStorage w k of None \<Rightarrow> [] | Some v \<Rightarrow> v)"
  by (simp add: getItem_or_def split: option.splits)

lemma loadTokens_fields:
  assumes "storage_ok w"
  shows "ACCESS_TOKEN (loadTokens w) =
           (case localStorage w ''cb_access_token'' of None \<Rightarrow> [] | Some v \<Rightarrow> v)"
    and "REFRESH_TOKEN (loadTokens w) =
           (case localStorage w ''cb_refresh_token'' of None \<Rightarrow> [] | Some v \<Rightarrow> v)"
    and "ACCESS_EXPIRES_AT (loadTokens w) = Number (getItem_or w ''cb_access_expires_at'' ''0'')"
  using assms by (simp_all add: loadTokens_def Date_now_def Let_def getItem_or_same)

text \<open>
  C5. With local storage working, \<open>saveTokens\<close> writes the access token under
  \<open>cb_access_token\<close>, the refresh token under \<open>cb_refresh_token\<close> and, under
  \<open>cb_access_expires_at\<close>, the text of the expiry: the time of saving plus 1000 times
  \<open>expires_in\<close> (900 when absent) minus 5000. A later \<open>loadTokens\<close>, in any world \<open>w2\<close> with
  this storage (the variables of the module may have been reset by a page load), puts
  exactly these three values into the variables: the values \<open>saveTokens\<close> left there.
\<close>

theorem saveTokens_roundtrip:
  assumes "storage_ok w"
    and "storage_ok w2" and "localStorage w2 = localStorage (saveTokens b w)"
  shows "localStorage (saveTokens b w) ''cb_access_token'' = Some (access_token b) \<and>
         localStorage (saveTokens b w) ''cb_refresh_token'' = Some (refresh_token b) \<and>
         localStorage (saveTokens b w) ''cb_access_expires_at'' =
           Some (String_number (Num (clock w (ticks w) +
             (case expires_in b of None \<Rightarrow> 900 | Some s \<Rightarrow> s) * 1000 - 5000))) \<and>
         ACCESS_TOKEN (loadTokens w2) = access_token b \<and>
         REFRESH_TOKEN (loadTokens w2) = refresh_token b \<and>
         ACCESS_EXPIRES_AT (loadTokens w2) =
           Num (clock w (ticks w) +
             (case expires_in b of None \<Rightarrow> 900 | Some s \<Rightarrow> s) * 1000 - 5000) \<and>
         ACCESS_TOKEN (loadTokens w2) = ACCESS_TOKEN (saveTokens b w) \<and>
         REFRESH_TOKEN (loadTokens w2) = REFRESH_TOKEN (saveTokens b w) \<and>
         ACCESS_EXPIRES_AT (loadTokens w2) = ACCESS_EXPIRES_AT (saveTokens b w)"
proof -
  let ?w = "saveTokens b w"
  have st: "localStorage ?w ''cb_access_token'' = Some (access_token b)"
    "localStorage ?w ''cb_refresh_token'' = Some (refresh_token b)"
    "localStorage ?w ''cb_access_expires_at'' = Some (String_number (expiry_of b w))"
    using assms(1) by (simp_all add: saveTokens_storage del: String_number.simps)
  have e: "getItem_or w2 ''cb_access_expires_at'' ''0'' = String_number (expiry_of b w)"
    using st(3) assms(3) String_number_not_Nil [of "expiry_of b w"]
    by (simp add: getItem_or_def del: String_number.simps)
  have n: "Number (String_number (expiry_of b w)) = expiry_of b w"
    unfolding expiry_of_def by (rule Number_String_number)
  show ?thesis
    using st e n assms(3) loadTokens_fields [OF assms(2)]
    by (simp add: saveTokens_fields expiry_of_def del: String_number.simps)
qed

lemmas run_defs =
  http_def loginIfNeeded_def refreshIfPossible_def doFetch_def doFetch_request_def fetch_def
  saveTokens_def loadTokens_def getItem_or_def Number_def digit_val_def Date_now_def
  token_fresh_def http_result_def ok_def no_init_def post_init_def refresh_request_def
  login_request_def next_outcome_def example_env_def static_env_def login_env_def example_world_def
  example_parse_def example_stringify_def fresh_bundle_def doFetches_def Let_def

theorem saveTokens_roundtrip_witness:
  "storage_ok example_world \<and>
   localStorage (saveTokens fresh_bundle example_world) ''cb_access_expires_at'' =
     Some ''1700000895000'' \<and>
   ACCESS_TOKEN (loadTokens ((saveTokens fresh_bundle example_world)
      \<lparr>ACCESS_TOKEN := [], REFRESH_TOKEN := [], ACCESS_EXPIRES_AT := Num 15\<rparr>)) = ''A1'' \<and>
   REFRESH_TOKEN (loadTokens ((saveTokens fresh_bundle example_world)
      \<lparr>ACCESS_TOKEN := [], REFRESH_TOKEN := [], ACCESS_EXPIRES_AT := Num 15\<rparr>)) = ''R2'' \<and>
   ACCESS_EXPIRES_AT (loadTokens ((saveTokens fresh_bundle example_world)
      \<lparr>ACCESS_TOKEN := [], REFRESH_TOKEN := [], ACCESS_EXPIRES_AT := Num 15\<rparr>)) =
     Num 1700000895000"
proof -
  have a: "storage_ok example_world" by (simp add: example_world_def)
  have b: "storage_ok ((saveTokens fresh_bundle example_world)
      \<lparr>ACCESS_TOKEN := [], REFRESH_TOKEN := [], ACCESS_EXPIRES_AT := Num 15\<rparr>)"
    by (simp add: saveTokens_fields a)
  have c: "localStorage ((saveTokens fresh_bundle example_world)
      \<lparr>ACCESS_TOKEN := [], REFRESH_TOKEN := [], ACCESS_EXPIRES_AT := Num 15\<rparr>) =
      localStorage (saveTokens fresh_bundle example_world)" by simp
  have k: "clock example_world (ticks example_world) = 1700000000000"
    by (simp add: example_world_def)
  have d: "dec 1700000895000 = ''1700000895000''"
    by (simp add: dec.simps digit_char_def)
  from saveTokens_roundtrip [OF a b c] a k d show ?thesis
    by (simp add: fresh_bundle_def)
qed

section \<open>The authenticated HTTP client\<close>

lemma fetch_fields:
  "ACCESS_TOKEN (snd (fetch who req w)) = ACCESS_TOKEN w"
  "REFRESH_TOKEN (snd (fetch who req w)) = REFRESH_TOKEN w"
  "ACCESS_EXPIRES_AT (snd (fetch who req w)) = ACCESS_EXPIRES_AT w"
  "localStorage (snd (fetch who req w)) = localStorage w"
  "storage_ok (snd (fetch who req w)) = storage_ok w"
  "ticks (snd (fetch who req w)) = ticks w"
  "clock (snd (fetch who req w)) = clock w"
  "fetched (snd (fetch who req w)) =
     fetched w @ [\<lparr>origin = who, request = req, token_then = ACCESS_TOKEN w,
                   outcome = next_outcome w\<rparr>]"
  "pending (snd (fetch who req w)) = tl (pending w)"
  "fst (fetch who req w) = (case pending w of [] \<Rightarrow> Rejected | r # rs \<Rightarrow> r)"
  by (simp_all add: fetch_def next_outcome_def)

text \<open>
  C8. When \<open>refreshIfPossible\<close> returns true, the refresh token is the one held before the
  call, the access token is the one the endpoint returned and the expiry is computed from
  its \<open>expires_in\<close>; with storage working the old refresh token is written back under
  \<open>cb_refresh_token\<close>. When no refresh token is held, the call returns false and changes
  nothing at all. When the endpoint answers with a status that is not ok, the call returns
  false and leaves the three token variables and the storage as they were.
\<close>

theorem refreshIfPossible_frame:
  "(fst (refreshIfPossible env w) = Inr True \<longrightarrow>
      REFRESH_TOKEN (snd (refreshIfPossible env w)) = REFRESH_TOKEN w \<and>
      (\<exists>res data rest. pending w = Resolved res # rest \<and> ok res \<and> body_json res = Some data \<and>
         ACCESS_TOKEN (snd (refreshIfPossible env w)) = access_token data \<and>
         ACCESS_EXPIRES_AT (snd (refreshIfPossible env w)) =
           Num (clock w (ticks w) +
             (case expires_in data of None \<Rightarrow> 900 | Some s \<Rightarrow> s) * 1000 - 5000) \<and>
         (storage_ok w \<longrightarrow>
            localStorage (snd (refreshIfPossible env w)) ''cb_refresh_token'' =
              Some (REFRESH_TOKEN w)))) \<and>
   (REFRESH_TOKEN w = [] \<longrightarrow> refreshIfPossible env w = (Inr False, w)) \<and>
   (REFRESH_TOKEN w \<noteq> [] \<and> pending w = Resolved res # rest \<and> \<not> ok res \<longrightarrow>
      fst (refreshIfPossible env w) = Inr False \<and>
      ACCESS_TOKEN (snd (refreshIfPossible env w)) = ACCESS_TOKEN w \<and>
      REFRESH_TOKEN (snd (refreshIfPossible env w)) = REFRESH_TOKEN w \<and>
      ACCESS_EXPIRES_AT (snd (refreshIfPossible env w)) = ACCESS_EXPIRES_AT w \<and>
      localStorage (snd (refreshIfPossible env w)) = localStorage w)"
proof (intro conjI impI)
  assume t: "fst (refreshIfPossible env w) = Inr True"
  then have r: "REFRESH_TOKEN w \<noteq> []"
    by (auto simp: refreshIfPossible_def)
  from t r obtain res rest where p: "pending w = Resolved res # rest"
    by (cases "pending w"; cases "hd (pending w)")
      (auto simp: refreshIfPossible_def fetch_def next_outcome_def split: if_splits option.splits)
  from t r p have o: "ok res"
    by (auto simp: refreshIfPossible_def fetch_def next_outcome_def split: if_splits option.splits)
  from t r p o obtain data where d: "body_json res = Some data"
    by (cases "body_json res") (auto simp: refreshIfPossible_def fetch_def next_outcome_def)
  let ?w1 = "snd (fetch FromRefresh (refresh_request env w) w)"
  have eq: "snd (refreshIfPossible env w) =
      saveTokens \<lparr>access_token = access_token data, refresh_token = REFRESH_TOKEN w,
                  token_type = None, expires_in = expires_in data\<rparr> ?w1"
    using r p o d by (simp add: refreshIfPossible_def fetch_def next_outcome_def)
  show "REFRESH_TOKEN (snd (refreshIfPossible env w)) = REFRESH_TOKEN w"
    by (simp add: eq saveTokens_fields)
  have "ACCESS_TOKEN (snd (refreshIfPossible env w)) = access_token data"
    by (simp add: eq saveTokens_fields)
  moreover have "ACCESS_EXPIRES_AT (snd (refreshIfPossible env w)) =
           Num (clock w (ticks w) +
             (case expires_in data of None \<Rightarrow> 900 | Some s \<Rightarrow> s) * 1000 - 5000)"
    by (simp add: eq saveTokens_fields expiry_of_def fetch_fields)
  moreover have "storage_ok w \<longrightarrow>
            localStorage (snd (refreshIfPossible env w)) ''cb_refresh_token'' =
              Some (REFRESH_TOKEN w)"
    by (simp add: eq saveTokens_storage fetch_fields del: String_number.simps)
  ultimately show "\<exists>res data rest. pending w = Resolved res # rest \<and> ok res \<and>
         body_json res = Some data \<and>
         ACCESS_TOKEN (snd (refreshIfPossible env w)) = access_token data \<and>
         ACCESS_EXPIRES_AT (snd (refreshIfPossible env w)) =
           Num (clock w (ticks w) +
             (case expires_in data of None \<Rightarrow> 900 | Some s \<Rightarrow> s) * 1000 - 5000) \<and>
         (storage_ok w \<longrightarrow>
            localStorage (snd (refreshIfPossible env w)) ''cb_refresh_token'' =
              Some (REFRESH_TOKEN w))"
    using p o d by blast
next
  assume "REFRESH_TOKEN w = []"
  then show "refreshIfPossible env w = (Inr False, w)"
    by (simp add: refreshIfPossible_def)
next
  assume a: "REFRESH_TOKEN w \<noteq> [] \<and> pending w = Resolved res # rest \<and> \<not> ok res"
  then have eq: "refreshIfPossible env w =
      (Inr False, snd (fetch FromRefresh (refresh_request env w) w))"
    by (simp add: refreshIfPossible_def fetch_def next_outcome_def)
  show "fst (refreshIfPossible env w) = Inr False" by (simp add: eq)
  show "ACCESS_TOKEN (snd (refreshIfPossible env w)) = ACCESS_TOKEN w"
    by (simp add: eq fetch_fields)
  show "REFRESH_TOKEN (snd (refreshIfPossible env w)) = REFRESH_TOKEN w"
    by (simp add: eq fetch_fields)
  show "ACCESS_EXPIRES_AT (snd (refreshIfPossible env w)) = ACCESS_EXPIRES_AT w"
    by (simp add: eq fetch_fields)
  show "localStorage (snd (refreshIfPossible env w)) = localStorage w"
    by (simp add: eq fetch_fields)
qed

text \<open>
  In the example world as it is, no refresh token is held. With the tokens loaded from
  storage: the first pending answer is the 401, which leaves every token as it was; past it, the refresh succeeds and keeps
  \<open>R1\<close> while the access token becomes \<open>A1\<close>.
\<close>

theorem refreshIfPossible_frame_witness:
  "refreshIfPossible example_env example_world = (Inr False, example_world) \<and>
   fst (refreshIfPossible example_env (loadTokens example_world)) = Inr False \<and>
   ACCESS_TOKEN (snd (refreshIfPossible example_env (loadTokens example_world))) = ''A0'' \<and>
   REFRESH_TOKEN (snd (refreshIfPossible example_env (loadTokens example_world))) = ''R1'' \<and>
   ACCESS_EXPIRES_AT (snd (refreshIfPossible example_env (loadTokens example_world))) =
     Num 1000 \<and>
   fst (refreshIfPossible example_env
     ((loadTokens example_world)\<lparr>pending := tl (pending example_world)\<rparr>)) = Inr True \<and>
   REFRESH_TOKEN (snd (refreshIfPossible example_env
     ((loadTokens example_world)\<lparr>pending := tl (pending example_world)\<rparr>))) = ''R1''"
proof -
  have l: "loadTokens example_world =
      example_world\<lparr>ACCESS_TOKEN := ''A0'', REFRESH_TOKEN := ''R1'',
        ACCESS_EXPIRES_AT := Num 1000, ticks := 1\<rparr>"
    by (simp add: run_defs)
  have t: "fst (refreshIfPossible example_env
     ((loadTokens example_world)\<lparr>pending := tl (pending example_world)\<rparr>)) = Inr True"
    unfolding l by (simp add: run_defs)
  from refreshIfPossible_frame [of example_env "loadTokens example_world"
      "\<lparr>status = 401, body_text = Some ''expired'', body_json = None\<rparr>"
      "tl (pending example_world)"]
    refreshIfPossible_frame [of example_env
      "(loadTokens example_world)\<lparr>pending := tl (pending example_world)\<rparr>"]
    refreshIfPossible_frame [of example_env example_world] t
  have "refreshIfPossible example_env example_world = (Inr False, example_world) \<and>
   fst (refreshIfPossible example_env (loadTokens example_world)) = Inr False \<and>
   ACCESS_TOKEN (snd (refreshIfPossible example_env (loadTokens example_world))) = ''A0'' \<and>
   REFRESH_TOKEN (snd (refreshIfPossible example_env (loadTokens example_world))) = ''R1'' \<and>
   ACCESS_EXPIRES_AT (snd (refreshIfPossible example_env (loadTokens example_world))) =
     Num 1000 \<and>
   fst (refreshIfPossible example_env
     ((loadTokens example_world)\<lparr>pending := tl (pending example_world)\<rparr>)) = Inr True \<and>
   REFRESH_TOKEN (snd (refreshIfPossible example_env
     ((loadTokens example_world)\<lparr>pending := tl (pending example_world)\<rparr>))) = ''R1''"
    unfolding l by (simp add: example_world_def ok_def)
  then show ?thesis .
qed

lemma loadTokens_fetched: "fetched (loadTokens w) = fetched w"
  by (simp add: loadTokens_def Date_now_def Let_def)

lemma loadTokens_pending: "pending (loadTokens w) = pending w"
  by (simp add: loadTokens_def Date_now_def Let_def)

lemma token_fresh_fetched: "fetched (snd (token_fresh w)) = fetched w"
  by (simp add: token_fresh_def Date_now_def Let_def)

lemma token_fresh_pending: "pending (snd (token_fresh w)) = pending w"
  by (simp add: token_fresh_def Date_now_def Let_def)

lemma token_fresh_fst:
  "fst (token_fresh w) =
     (ACCESS_TOKEN w \<noteq> [] \<and> js_less (Num (clock w (ticks w))) (ACCESS_EXPIRES_AT w))"
  by (simp add: token_fresh_def Date_now_def Let_def)

lemma stored_token_valid_fresh: "stored_token_valid w = fst (token_fresh (loadTokens w))"
  by (simp add: stored_token_valid_def token_fresh_fst Let_def)

text \<open>
  C4. With a static bearer token configured, \<open>loginIfNeeded\<close> installs it with an expiry
  one hour (3600000 ms) after the current time and calls nothing. Without one, it calls
  nothing either when the stored access token is present and not yet expired, or when the
  user name or the password is missing. Only otherwise it issues one call: a POST of the
  credentials to \<open>/auth/login\<close>; an answer that is not ok makes it throw
  \<open>Auth login failed: HTTP\<close> and the status, and an ok answer has its bundle saved by
  \<open>saveTokens\<close>.
\<close>

theorem loginIfNeeded_cases:
  "(STATIC_BEARER env \<noteq> [] \<longrightarrow>
      loginIfNeeded env w =
        (Inr (), w\<lparr>ACCESS_TOKEN := STATIC_BEARER env, ticks := Suc (ticks w),
                    ACCESS_EXPIRES_AT := Num (clock w (ticks w) + 3600000)\<rparr>)) \<and>
   (STATIC_BEARER env = [] \<and>
      (stored_token_valid w \<or> API_USERNAME env = [] \<or> API_PASSWORD env = []) \<longrightarrow>
      fst (loginIfNeeded env w) = Inr () \<and>
      fetched (snd (loginIfNeeded env w)) = fetched w \<and>
      pending (snd (loginIfNeeded env w)) = pending w) \<and>
   (STATIC_BEARER env = [] \<and> \<not> stored_token_valid w \<and>
      API_USERNAME env \<noteq> [] \<and> API_PASSWORD env \<noteq> [] \<longrightarrow>
      (\<exists>e. fetched (snd (loginIfNeeded env w)) = fetched w @ [e] \<and>
         origin e = FromLogin \<and>
         request e =
           \<lparr>req_url = BASE_URL env @ ''/auth/login'', req_method = Some ''POST'',
             req_headers = [(''Content-Type'', ''application/json'')],
             req_body = Some (JSON_stringify env
               (JObj [(''username'', JStr (API_USERNAME env)),
                      (''password'', JStr (API_PASSWORD env))]))\<rparr>) \<and>
      (\<forall>res rest. pending w = Resolved res # rest \<and> \<not> ok res \<longrightarrow>
         fst (loginIfNeeded env w) =
           Inl (Error (''Auth login failed: HTTP '' @ dec (status res)))) \<and>
      (\<forall>res rest data.
         pending w = Resolved res # rest \<and> ok res \<and> body_json res = Some data \<longrightarrow>
         loginIfNeeded env w =
           (Inr (), saveTokens data
              (snd (fetch FromLogin (login_request env) (snd (token_fresh (loadTokens w))))))))"
proof (intro conjI impI)
  assume "STATIC_BEARER env \<noteq> []"
  then show "loginIfNeeded env w =
        (Inr (), w\<lparr>ACCESS_TOKEN := STATIC_BEARER env, ticks := Suc (ticks w),
                    ACCESS_EXPIRES_AT := Num (clock w (ticks w) + 3600000)\<rparr>)"
    by (simp add: loginIfNeeded_def Date_now_def)
next
  assume a: "STATIC_BEARER env = [] \<and>
      (stored_token_valid w \<or> API_USERNAME env = [] \<or> API_PASSWORD env = [])"
  obtain fresh w2 where tf: "token_fresh (loadTokens w) = (fresh, w2)"
    by (cases "token_fresh (loadTokens w)")
  then have w2: "fetched w2 = fetched w" "pending w2 = pending w"
    using token_fresh_fetched [of "loadTokens w"] token_fresh_pending [of "loadTokens w"]
    by (simp_all add: loadTokens_fetched loadTokens_pending)
  have "fresh = stored_token_valid w" using tf by (simp add: stored_token_valid_fresh)
  with a tf have "loginIfNeeded env w = (Inr (), w2)"
    by (auto simp: loginIfNeeded_def)
  with w2 show "fst (loginIfNeeded env w) = Inr ()"
    "fetched (snd (loginIfNeeded env w)) = fetched w"
    "pending (snd (loginIfNeeded env w)) = pending w" by simp_all
next
  assume a: "STATIC_BEARER env = [] \<and> \<not> stored_token_valid w \<and>
      API_USERNAME env \<noteq> [] \<and> API_PASSWORD env \<noteq> []"
  obtain fresh w2 where tf: "token_fresh (loadTokens w) = (fresh, w2)"
    by (cases "token_fresh (loadTokens w)")
  then have w2: "fetched w2 = fetched w" "pending w2 = pending w"
    using token_fresh_fetched [of "loadTokens w"] token_fresh_pending [of "loadTokens w"]
    by (simp_all add: loadTokens_fetched loadTokens_pending)
  have nf: "\<not> fresh" using tf a by (simp add: stored_token_valid_fresh)
  obtain r w3 where fe: "fetch FromLogin (login_request env) w2 = (r, w3)"
    by (cases "fetch FromLogin (login_request env) w2")
  have f3: "fetched w3 = fetched w @
      [\<lparr>origin = FromLogin, request = login_request env, token_then = ACCESS_TOKEN w2,
        outcome = next_outcome w2\<rparr>]"
    using fetch_fields(8) [of FromLogin "login_request env" w2] fe w2 by simp
  have r: "r = (case pending w of [] \<Rightarrow> Rejected | x # xs \<Rightarrow> x)"
    using fetch_fields(10) [of FromLogin "login_request env" w2] fe w2 by simp
  have lg: "loginIfNeeded env w =
      (case r of
         Rejected \<Rightarrow> (Inl FetchRejected, w3)
       | Resolved res \<Rightarrow>
           if \<not> ok res then (Inl (Error (''Auth login failed: HTTP '' @ dec (status res))), w3)
           else (case body_json res of None \<Rightarrow> (Inl JsonRejected, w3)
                 | Some data \<Rightarrow> (Inr (), saveTokens data w3)))"
    using a tf nf fe by (simp add: loginIfNeeded_def)
  have "fetched (snd (loginIfNeeded env w)) = fetched w3"
    unfolding lg by (auto simp: saveTokens_fields split: fetch_result.splits option.splits)
  with f3 show "\<exists>e. fetched (snd (loginIfNeeded env w)) = fetched w @ [e] \<and>
         origin e = FromLogin \<and>
         request e =
           \<lparr>req_url = BASE_URL env @ ''/auth/login'', req_method = Some ''POST'',
             req_headers = [(''Content-Type'', ''application/json'')],
             req_body = Some (JSON_stringify env
               (JObj [(''username'', JStr (API_USERNAME env)),
                      (''password'', JStr (API_PASSWORD env))]))\<rparr>"
    by (simp add: login_request_def)
  show "\<forall>res rest. pending w = Resolved res # rest \<and> \<not> ok res \<longrightarrow>
         fst (loginIfNeeded env w) =
           Inl (Error (''Auth login failed: HTTP '' @ dec (status res)))"
    unfolding lg r by auto
  have w3: "w3 = snd (fetch FromLogin (login_request env) (snd (token_fresh (loadTokens w))))"
    using tf fe by simp
  show "\<forall>res rest data.
         pending w = Resolved res # rest \<and> ok res \<and> body_json res = Some data \<longrightarrow>
         loginIfNeeded env w =
           (Inr (), saveTokens data
              (snd (fetch FromLogin (login_request env) (snd (token_fresh (loadTokens w))))))"
    unfolding lg r w3 [symmetric] by auto
qed

text \<open>
  The static token is installed for an hour; without credentials nothing is called; with
  credentials and an expired stored token the 401 makes the login throw, and the answer
  after it is saved.
\<close>

theorem loginIfNeeded_cases_witness:
  "loginIfNeeded static_env example_world =
     (Inr (), example_world\<lparr>ACCESS_TOKEN := ''chatbot-api-token-2024'', ticks := 1,
        ACCESS_EXPIRES_AT := Num 1700003600000\<rparr>) \<and>
   fetched (snd (loginIfNeeded example_env example_world)) = [] \<and>
   \<not> stored_token_valid example_world \<and>
   fst (loginIfNeeded login_env example_world) = Inl (Error ''Auth login failed: HTTP 401'') \<and>
   ACCESS_TOKEN (snd (loginIfNeeded login_env
     (example_world\<lparr>pending := tl (pending example_world)\<rparr>))) = ''A1'' \<and>
   REFRESH_TOKEN (snd (loginIfNeeded login_env
     (example_world\<lparr>pending := tl (pending example_world)\<rparr>))) = ''R2''"
proof -
  have v: "\<not> stored_token_valid example_world"
    "\<not> stored_token_valid (example_world\<lparr>pending := tl (pending example_world)\<rparr>)"
    by (simp_all add: stored_token_valid_def run_defs)
  have d: "dec 401 = ''401''" by (simp add: dec.simps digit_char_def)
  from loginIfNeeded_cases [of static_env example_world]
    loginIfNeeded_cases [of example_env example_world]
    loginIfNeeded_cases [of login_env example_world]
    loginIfNeeded_cases [of login_env "example_world\<lparr>pending := tl (pending example_world)\<rparr>"]
    v d
  show ?thesis
    by (simp add: static_env_def login_env_def example_env_def example_world_def ok_def
        saveTokens_fields fresh_bundle_def)
qed

lemma loginIfNeeded_log:
  "\<exists>es. fetched (snd (loginIfNeeded env w)) = fetched w @ es \<and>
        (\<forall>e \<in> set es. origin e = FromLogin \<and>
           req_url (request e) = BASE_URL env @ ''/auth/login'')"
proof (cases "STATIC_BEARER env \<noteq> []")
  case True
  then show ?thesis by (simp add: loginIfNeeded_def Date_now_def Let_def)
next
  case False
  obtain fresh w2 where tf: "token_fresh (loadTokens w) = (fresh, w2)"
    by (cases "token_fresh (loadTokens w)")
  then have f2: "fetched w2 = fetched w"
    using token_fresh_fetched [of "loadTokens w"] by (simp add: loadTokens_fetched)
  show ?thesis
  proof (cases "fresh \<or> API_USERNAME env = [] \<or> API_PASSWORD env = []")
    case True
    with False tf f2 show ?thesis by (auto simp: loginIfNeeded_def)
  next
    case nf: False
    obtain r w3 where fe: "fetch FromLogin (login_request env) w2 = (r, w3)"
      by (cases "fetch FromLogin (login_request env) w2")
    then have f3: "fetched w3 = fetched w @
        [\<lparr>origin = FromLogin, request = login_request env, token_then = ACCESS_TOKEN w2,
          outcome = next_outcome w2\<rparr>]"
      using fetch_fields(8) [of FromLogin "login_request env" w2] f2 by simp
    have "fetched (snd (loginIfNeeded env w)) = fetched w3"
      using False tf nf fe
      by (auto simp: loginIfNeeded_def saveTokens_fields split: fetch_result.splits option.splits)
    with f3 show ?thesis by (simp add: login_request_def)
  qed
qed

lemma refreshIfPossible_log:
  "\<exists>es. fetched (snd (refreshIfPossible env w)) = fetched w @ es \<and>
        (\<forall>e \<in> set es. origin e = FromRefresh \<and>
           req_url (request e) = BASE_URL env @ ''/auth/refresh'')"
proof (cases "REFRESH_TOKEN w = []")
  case True
  then show ?thesis by (simp add: refreshIfPossible_def)
next
  case False
  obtain r w1 where fe: "fetch FromRefresh (refresh_request env w) w = (r, w1)"
    by (cases "fetch FromRefresh (refresh_request env w) w")
  then have f1: "fetched w1 = fetched w @
      [\<lparr>origin = FromRefresh, request = refresh_request env w, token_then = ACCESS_TOKEN w,
        outcome = next_outcome w\<rparr>]"
    using fetch_fields(8) [of FromRefresh "refresh_request env w" w] by simp
  have "fetched (snd (refreshIfPossible env w)) = fetched w1"
    using False fe
    by (auto simp: refreshIfPossible_def saveTokens_fields split: fetch_result.splits option.splits)
  with f1 show ?thesis by (simp add: refresh_request_def)
qed

lemma doFetch_log:
  "fetched (snd (doFetch env path init w)) = fetched w @ [doFetch_entry env path init w]"
  by (simp add: doFetch_def fetch_fields doFetch_entry_def)

lemma doFetches_append:
  "fetched w' = fetched w @ es \<Longrightarrow> doFetches w w' = filter (\<lambda>e. origin e = FromDoFetch) es"
  by (simp add: doFetches_def)

lemma filter_other_origin:
  "\<forall>e \<in> set es. origin e = FromLogin \<or> origin e = FromRefresh \<Longrightarrow>
   filter (\<lambda>e. origin e = FromDoFetch) es = []"
  by (induction es) auto

lemma filter_other_url:
  "\<forall>e \<in> set es. req_url (request e) = base @ other \<Longrightarrow> path \<noteq> other \<Longrightarrow>
   filter (\<lambda>e. req_url (request e) = base @ path) es = []"
  by (induction es) auto

lemma doFetch_entry_url:
  "req_url (request (doFetch_entry env path init v)) = BASE_URL env @ path"
  by (simp add: doFetch_entry_def doFetch_request_def)

text \<open>
  The calls that \<open>doFetch\<close> issues in one run of \<open>http\<close>: one in the world left by
  \<open>loginIfNeeded\<close> and, after a 401 without static token and a refresh that returned true,
  one more in the world left by the refresh.
\<close>

lemma http_doFetches:
  fixes env path init w
  defines "w1 \<equiv> snd (loginIfNeeded env w)"
  defines "w2 \<equiv> snd (doFetch env path init w1)"
  defines "w3 \<equiv> snd (refreshIfPossible env w2)"
  shows "doFetches w (snd (http env path init w)) =
     (if (\<exists>res. fst (doFetch env path init w1) = Resolved res \<and> status res = 401) \<and>
         STATIC_BEARER env = [] \<and> fst (refreshIfPossible env w2) = Inr True
      then [doFetch_entry env path init w1, doFetch_entry env path init w3]
      else [doFetch_entry env path init w1])"
proof -
  obtain ls where ls: "fetched w1 = fetched w @ ls" "\<forall>e \<in> set ls. origin e = FromLogin"
    using loginIfNeeded_log [of env w] unfolding w1_def by blast
  obtain rs where rs: "fetched w3 = fetched w2 @ rs" "\<forall>e \<in> set rs. origin e = FromRefresh"
    using refreshIfPossible_log [of env w2] unfolding w3_def by blast
  have f2: "fetched w2 = fetched w @ ls @ [doFetch_entry env path init w1]"
    unfolding w2_def by (simp add: doFetch_log ls)
  have fl: "filter (\<lambda>e. origin e = FromDoFetch) ls = []"
    using ls(2) by (intro filter_other_origin) auto
  have fr: "filter (\<lambda>e. origin e = FromDoFetch) rs = []"
    using rs(2) by (intro filter_other_origin) auto
  have o1: "origin (doFetch_entry env path init w1) = FromDoFetch"
    "origin (doFetch_entry env path init w3) = FromDoFetch"
    by (simp_all add: doFetch_entry_def)
  have d2: "doFetches w w2 = [doFetch_entry env path init w1]"
    using doFetches_append [OF f2] fl o1 by simp
  have f3: "fetched w3 = fetched w @ (ls @ [doFetch_entry env path init w1] @ rs)"
    using rs(1) f2 by simp
  have d3: "doFetches w w3 = [doFetch_entry env path init w1]"
    using doFetches_append [OF f3] fl fr o1 by simp
  have f4: "fetched (snd (doFetch env path init w3)) =
      fetched w @ (ls @ [doFetch_entry env path init w1] @ rs @ [doFetch_entry env path init w3])"
    using f3 by (simp add: doFetch_log)
  have d4: "doFetches w (snd (doFetch env path init w3)) =
      [doFetch_entry env path init w1, doFetch_entry env path init w3]"
    using doFetches_append [OF f4] fl fr o1 by simp
  obtain r x2 where df: "doFetch env path init w1 = (r, x2)"
    by (cases "doFetch env path init w1")
  then have x2: "x2 = w2" unfolding w2_def by simp
  obtain q x3 where rf: "refreshIfPossible env w2 = (q, x3)"
    by (cases "refreshIfPossible env w2")
  then have x3: "x3 = w3" unfolding w3_def by simp
  obtain r' x4 where df': "doFetch env path init w3 = (r', x4)"
    by (cases "doFetch env path init w3")
  then have x4: "doFetches w x4 = [doFetch_entry env path init w1, doFetch_entry env path init w3]"
    using d4 by simp
  show ?thesis
    using df rf df' d2 d3 x4 unfolding x2 x3
    by (auto simp: http_def Let_def w1_def [symmetric]
        split: fetch_result.splits sum.splits)
qed

text \<open>
  For a path other than those of the two authentication endpoints, the fetches of the
  target URL in a run of \<open>http\<close> are the ones that \<open>doFetch\<close> issues.
\<close>

lemma http_target_fetches:
  assumes "path \<noteq> ''/auth/login''" and "path \<noteq> ''/auth/refresh''"
  shows "target_fetches env path w (snd (http env path init w)) =
     doFetches w (snd (http env path init w))"
proof -
  let ?w1 = "snd (loginIfNeeded env w)"
  let ?w2 = "snd (doFetch env path init ?w1)"
  let ?w3 = "snd (refreshIfPossible env ?w2)"
  let ?P = "\<lambda>e. req_url (request e) = BASE_URL env @ path"
  let ?Q = "\<lambda>e. origin e = FromDoFetch"
  obtain ls where ls: "fetched ?w1 = fetched w @ ls"
    "\<forall>e \<in> set ls. origin e = FromLogin \<and> req_url (request e) = BASE_URL env @ ''/auth/login''"
    using loginIfNeeded_log [of env w] by blast
  obtain rs where rs: "fetched ?w3 = fetched ?w2 @ rs"
    "\<forall>e \<in> set rs. origin e = FromRefresh \<and>
       req_url (request e) = BASE_URL env @ ''/auth/refresh''"
    using refreshIfPossible_log [of env ?w2] by blast
  have pl: "filter ?P ls = []" using ls(2) assms(1) by (intro filter_other_url) auto
  have pr: "filter ?P rs = []" using rs(2) assms(2) by (intro filter_other_url) auto
  have ql: "filter ?Q ls = []" using ls(2) by (intro filter_other_origin) auto
  have qr: "filter ?Q rs = []" using rs(2) by (intro filter_other_origin) auto
  have o: "\<And>v. ?Q (doFetch_entry env path init v)" "\<And>v. ?P (doFetch_entry env path init v)"
    by (simp_all add: doFetch_entry_def doFetch_request_def)
  have f2: "fetched ?w2 = fetched w @ ls @ [doFetch_entry env path init ?w1]"
    by (simp add: doFetch_log ls)
  have f3: "fetched ?w3 = fetched w @ ls @ [doFetch_entry env path init ?w1] @ rs"
    using rs(1) f2 by simp
  have f4: "fetched (snd (doFetch env path init ?w3)) =
      fetched w @ ls @ [doFetch_entry env path init ?w1] @ rs @ [doFetch_entry env path init ?w3]"
    using f3 by (simp add: doFetch_log)
  have e2: "filter ?P (drop (length (fetched w)) (fetched ?w2)) =
      filter ?Q (drop (length (fetched w)) (fetched ?w2))"
    unfolding f2 by (simp add: pl ql o)
  have e3: "filter ?P (drop (length (fetched w)) (fetched ?w3)) =
      filter ?Q (drop (length (fetched w)) (fetched ?w3))"
    unfolding f3 by (simp add: pl ql pr qr o)
  have e4: "filter ?P (drop (length (fetched w)) (fetched (snd (doFetch env path init ?w3)))) =
      filter ?Q (drop (length (fetched w)) (fetched (snd (doFetch env path init ?w3))))"
    unfolding f4 by (simp add: pl ql pr qr o)
  have "snd (http env path init w) = ?w2 \<or> snd (http env path init w) = ?w3 \<or>
      snd (http env path init w) = snd (doFetch env path init ?w3)"
    by (cases "doFetch env path init ?w1"; cases "refreshIfPossible env ?w2";
        cases "doFetch env path init ?w3")
      (auto simp: http_def Let_def split: fetch_result.splits sum.splits)
  with e2 e3 e4 show ?thesis
    unfolding target_fetches_def doFetches_def by auto
qed

text \<open>
  C1. In one run of \<open>http\<close>, \<open>doFetch\<close> fetches the target URL once or twice, and these
  are all the fetches of that URL (the module calls \<open>http\<close> with the paths of the chat
  endpoints, never with those of the authentication endpoints). The second fetch happens
  exactly when the first response has status 401, no static bearer token is
  configured and \<open>refreshIfPossible\<close> returned true. When the first response has another
  status or a static token is configured, and when the refresh returned false, \<open>http\<close>
  ends with the first response. (\<open>w1\<close> is the world after \<open>loginIfNeeded\<close>, \<open>first\<close> the
  outcome of the first fetch and \<open>w2\<close> the world after it.)
\<close>

theorem http_fetches_at_most_twice:
  assumes "w1 = snd (loginIfNeeded env w)"
    and "first = fst (doFetch env path init w1)"
    and "w2 = snd (doFetch env path init w1)"
  shows "(path \<noteq> ''/auth/login'' \<and> path \<noteq> ''/auth/refresh'' \<longrightarrow>
            target_fetches env path w (snd (http env path init w)) =
              doFetches w (snd (http env path init w))) \<and>
         (length (doFetches w (snd (http env path init w))) = 1 \<or>
          length (doFetches w (snd (http env path init w))) = 2) \<and>
         (\<forall>e \<in> set (doFetches w (snd (http env path init w))).
            req_url (request e) = BASE_URL env @ path) \<and>
         (length (doFetches w (snd (http env path init w))) = 2 \<longleftrightarrow>
            (\<exists>res. first = Resolved res \<and> status res = 401) \<and> STATIC_BEARER env = [] \<and>
            fst (refreshIfPossible env w2) = Inr True) \<and>
         (\<forall>res. first = Resolved res \<and> (status res \<noteq> 401 \<or> STATIC_BEARER env \<noteq> []) \<longrightarrow>
            http env path init w = (http_result env res, w2)) \<and>
         (\<forall>res. first = Resolved res \<and> status res = 401 \<and> STATIC_BEARER env = [] \<and>
              fst (refreshIfPossible env w2) = Inr False \<longrightarrow>
            http env path init w = (http_result env res, snd (refreshIfPossible env w2)))"
proof -
  have u: "\<And>v. req_url (request (doFetch_entry env path init v)) = BASE_URL env @ path"
    by (simp add: doFetch_entry_def doFetch_request_def)
  have d: "doFetch env path init w1 = (first, w2)" using assms(2,3) by simp
  have a: "\<forall>res. first = Resolved res \<and> (status res \<noteq> 401 \<or> STATIC_BEARER env \<noteq> []) \<longrightarrow>
            http env path init w = (http_result env res, w2)"
    using d by (auto simp: http_def Let_def assms(1) [symmetric])
  have b: "\<forall>res. first = Resolved res \<and> status res = 401 \<and> STATIC_BEARER env = [] \<and>
              fst (refreshIfPossible env w2) = Inr False \<longrightarrow>
            http env path init w = (http_result env res, snd (refreshIfPossible env w2))"
    using d by (cases "refreshIfPossible env w2") (auto simp: http_def Let_def assms(1) [symmetric])
  have c: "path \<noteq> ''/auth/login'' \<and> path \<noteq> ''/auth/refresh'' \<longrightarrow>
            target_fetches env path w (snd (http env path init w)) =
              doFetches w (snd (http env path init w))"
    using http_target_fetches [of path env w init] by simp
  have "(length (doFetches w (snd (http env path init w))) = 1 \<or>
          length (doFetches w (snd (http env path init w))) = 2) \<and>
         (\<forall>e \<in> set (doFetches w (snd (http env path init w))).
            req_url (request e) = BASE_URL env @ path) \<and>
         (length (doFetches w (snd (http env path init w))) = 2 \<longleftrightarrow>
            (\<exists>res. first = Resolved res \<and> status res = 401) \<and> STATIC_BEARER env = [] \<and>
            fst (refreshIfPossible env w2) = Inr True)"
    using u unfolding http_doFetches assms by auto
  with a b c show ?thesis by blast
qed

text \<open>
  The example run: the 401 is followed by a successful refresh, so the chat endpoint is
  fetched twice; with the static token the same 401 is final and is fetched once.
\<close>

theorem http_fetches_at_most_twice_witness:
  "length (target_fetches example_env ''/chatbot'' example_world
     (snd (http example_env ''/chatbot'' (post_init ''{}'') example_world))) = 2 \<and>
   length (doFetches example_world
     (snd (http example_env ''/chatbot'' (post_init ''{}'') example_world))) = 2 \<and>
   fst (refreshIfPossible example_env
     (snd (doFetch example_env ''/chatbot'' (post_init ''{}'')
        (snd (loginIfNeeded example_env example_world))))) = Inr True \<and>
   length (doFetches example_world
     (snd (http static_env ''/chatbot'' (post_init ''{}'') example_world))) = 1 \<and>
   fst (http static_env ''/chatbot'' (post_init ''{}'') example_world) =
     Inl (Error ''HTTP 401: expired'')"
proof -
  have r: "fst (refreshIfPossible example_env
     (snd (doFetch example_env ''/chatbot'' (post_init ''{}'')
        (snd (loginIfNeeded example_env example_world))))) = Inr True"
    by (simp add: run_defs)
  have f: "fst (doFetch example_env ''/chatbot'' (post_init ''{}'')
        (snd (loginIfNeeded example_env example_world))) =
      Resolved \<lparr>status = 401, body_text = Some ''expired'', body_json = None\<rparr>"
    by (simp add: run_defs)
  have g: "fst (doFetch static_env ''/chatbot'' (post_init ''{}'')
        (snd (loginIfNeeded static_env example_world))) =
      Resolved \<lparr>status = 401, body_text = Some ''expired'', body_json = None\<rparr>"
    by (simp add: run_defs)
  have s: "STATIC_BEARER example_env = []" "STATIC_BEARER static_env \<noteq> []"
    by (simp_all add: example_env_def static_env_def)
  have h: "http_result static_env
      \<lparr>status = 401, body_text = Some ''expired'', body_json = None\<rparr> =
      Inl (Error ''HTTP 401: expired'')"
    by (simp add: http_result_def ok_def dec.simps digit_char_def)
  from http_fetches_at_most_twice [where env = example_env and w = example_world
      and path = "''/chatbot''" and init = "post_init ''{}''", OF refl refl refl]
    http_fetches_at_most_twice [where env = static_env and w = example_world
      and path = "''/chatbot''" and init = "post_init ''{}''", OF refl refl refl]
    r f g s h
  show ?thesis by auto
qed

text \<open>The requests of the module's own callers of \<open>http\<close> pass no headers.\<close>

lemma module_inits_without_headers:
  "init_headers no_init = None" "init_headers (post_init b) = None"
  by (simp_all add: no_init_def post_init_def)

lemma sendChat_world:
  "snd (sendChat env body w) = snd (http env ''/chatbot'' (post_init (JSON_stringify env body)) w)"
  by (cases "http env ''/chatbot'' (post_init (JSON_stringify env body)) w")
    (auto simp: sendChat_def split: sum.splits)

lemma doFetch_entry_headers:
  "init_headers init = None \<Longrightarrow>
   req_headers (request (doFetch_entry env path init v)) =
     (''Content-Type'', ''application/json'') #
     (if token_then (doFetch_entry env path init v) \<noteq> []
      then [(''Authorization'', ''Bearer '' @ token_then (doFetch_entry env path init v))]
      else [])"
  by (simp add: doFetch_entry_def doFetch_request_def)

lemma http_bearer_headers:
  assumes "init_headers init = None"
  shows "bearer_headers w (snd (http env path init w))"
proof -
  have "\<And>v. req_headers (request (doFetch_entry env path init v)) =
      (''Content-Type'', ''application/json'') #
      (if token_then (doFetch_entry env path init v) \<noteq> []
       then [(''Authorization'', ''Bearer '' @ token_then (doFetch_entry env path init v))]
       else [])"
    using assms by (rule doFetch_entry_headers)
  then show ?thesis unfolding bearer_headers_def http_doFetches by auto
qed

text \<open>
  C7. Every fetch that \<open>doFetch\<close> issues in a run of \<open>http\<close> carries \<open>Content-Type:
  application/json\<close>, followed by \<open>Authorization: Bearer\<close> and the access token held when
  the fetch is made if that token is not empty, and by nothing if it is empty. This holds
  for every call of \<open>http\<close> that passes no \<open>headers\<close> of its own, hence for the four
  functions the module exports, the only callers of \<open>http\<close>. The token of the first fetch
  is the one left by \<open>loginIfNeeded\<close>, that of a second fetch the one left by
  \<open>refreshIfPossible\<close>.
\<close>

theorem http_bearer_header:
  "(init_headers init = None \<longrightarrow> bearer_headers w (snd (http env path init w))) \<and>
   bearer_headers w (snd (getChatbotOptions env w)) \<and>
   bearer_headers w (snd (propertySearch env qs w)) \<and>
   bearer_headers w (snd (extractParams env message w)) \<and>
   bearer_headers w (snd (sendChat env body w)) \<and>
   token_then (hd (doFetches w (snd (http env path init w)))) =
     ACCESS_TOKEN (snd (loginIfNeeded env w)) \<and>
   (length (doFetches w (snd (http env path init w))) = 2 \<longrightarrow>
      token_then (doFetches w (snd (http env path init w)) ! 1) =
        ACCESS_TOKEN (snd (refreshIfPossible env
          (snd (doFetch env path init (snd (loginIfNeeded env w)))))))"
proof -
  have t: "\<And>v. token_then (doFetch_entry env path init v) = ACCESS_TOKEN v"
    by (simp add: doFetch_entry_def)
  have "token_then (hd (doFetches w (snd (http env path init w)))) =
     ACCESS_TOKEN (snd (loginIfNeeded env w))"
    unfolding http_doFetches by (simp add: t)
  moreover have "length (doFetches w (snd (http env path init w))) = 2 \<longrightarrow>
      token_then (doFetches w (snd (http env path init w)) ! 1) =
        ACCESS_TOKEN (snd (refreshIfPossible env
          (snd (doFetch env path init (snd (loginIfNeeded env w))))))"
    unfolding http_doFetches by (simp add: t)
  ultimately show ?thesis
    by (simp add: http_bearer_headers module_inits_without_headers getChatbotOptions_def
        propertySearch_def extractParams_def sendChat_world)
qed

text \<open>In the example run the chat request goes out with \<open>A0\<close>, and again with \<open>A1\<close>.\<close>

theorem http_bearer_header_witness:
  "init_headers (post_init ''{}'') = None \<and>
   map (\<lambda>e. req_headers (request e))
     (doFetches example_world
        (snd (http example_env ''/chatbot'' (post_init ''{}'') example_world))) =
   [[(''Content-Type'', ''application/json''), (''Authorization'', ''Bearer A0'')],
    [(''Content-Type'', ''application/json''), (''Authorization'', ''Bearer A1'')]] \<and>
   map (\<lambda>e. req_headers (request e))
     (doFetches example_world (snd (sendChat example_env (JObj []) example_world))) =
   [[(''Content-Type'', ''application/json''), (''Authorization'', ''Bearer A0'')],
    [(''Content-Type'', ''application/json''), (''Authorization'', ''Bearer A1'')]] \<and>
   ACCESS_TOKEN (snd (loginIfNeeded example_env example_world)) = ''A0'' \<and>
   ACCESS_TOKEN (snd (refreshIfPossible example_env
     (snd (doFetch example_env ''/chatbot'' (post_init ''{}'')
        (snd (loginIfNeeded example_env example_world)))))) = ''A1''"
proof -
  let ?w' = "snd (http example_env ''/chatbot'' (post_init ''{}'') example_world)"
  have h: "init_headers (post_init ''{}'') = None" by (simp add: post_init_def)
  have s: "JSON_stringify example_env (JObj []) = ''{}''"
    by (simp add: example_env_def example_stringify_def)
  have d: "map token_then (doFetches example_world ?w') = [''A0'', ''A1'']"
    by (simp add: run_defs)
  then have n: "length (doFetches example_world ?w') = 2"
    "token_then (hd (doFetches example_world ?w')) = ''A0''"
    "token_then (doFetches example_world ?w' ! 1) = ''A1''"
    by (auto simp: map_eq_Cons_conv)
  note t = http_bearer_header [of "post_init ''{}''" example_world example_env "''/chatbot''"
      "[]" "[]" "JObj []"]
  from t h have b: "bearer_headers example_world ?w'"
    "bearer_headers example_world (snd (sendChat example_env (JObj []) example_world))"
    by simp_all
  have m: "\<And>w'. bearer_headers example_world w' \<Longrightarrow>
     map (\<lambda>e. req_headers (request e)) (doFetches example_world w') =
     map (\<lambda>t. (''Content-Type'', ''application/json'') #
             (if t \<noteq> [] then [(''Authorization'', ''Bearer '' @ t)] else []))
      (map token_then (doFetches example_world w'))"
    by (simp add: bearer_headers_def comp_def)
  from t n have "ACCESS_TOKEN (snd (loginIfNeeded example_env example_world)) = ''A0''"
    "ACCESS_TOKEN (snd (refreshIfPossible example_env
       (snd (doFetch example_env ''/chatbot'' (post_init ''{}'')
          (snd (loginIfNeeded example_env example_world)))))) = ''A1''"
    by simp_all
  with h m [OF b(1)] m [OF b(2)] show ?thesis
    unfolding sendChat_world s d by simp
qed










lemma sendChat_then_object:
  "sendChat_then (JObj kvs) =
     (case map_of kvs ''data'' of None \<Rightarrow> JObj kvs | Some d \<Rightarrow> d)"
proof (cases "map_of kvs ''data''")
  case None
  then have "''data'' \<notin> fst ` set kvs" by (simp add: map_of_eq_None_iff)
  with None show ?thesis by (simp add: sendChat_then_def)
next
  case (Some d)
  then have "''data'' \<in> fst ` set kvs" by (metis map_of_eq_None_iff option.distinct(1))
  with Some show ?thesis by (simp add: sendChat_then_def)
qed

lemma sendChat_then_other: "\<forall>kvs. v \<noteq> JObj kvs \<Longrightarrow> sendChat_then v = v"
  by (cases v) (simp_all add: sendChat_then_def)

text \<open>
  C10. When the underlying \<open>http\<close> call resolves with \<open>reply\<close>, \<open>sendChat\<close> resolves with
  the member \<open>data\<close> of \<open>reply\<close> if \<open>reply\<close> is an object that holds the key \<open>data\<close>, whatever
  that member and the other members are, and with \<open>reply\<close> itself otherwise (an array, a
  primitive, \<open>null\<close>, an object without that key).
\<close>

theorem sendChat_unwraps:
  assumes "http env ''/chatbot'' (post_init (JSON_stringify env body)) w = (Inr reply, w')"
  shows "sendChat env body w =
     (Inr (case reply of
             JObj kvs \<Rightarrow> (case map_of kvs ''data'' of None \<Rightarrow> reply | Some d \<Rightarrow> d)
           | _ \<Rightarrow> reply), w')"
proof (cases "\<exists>kvs. reply = JObj kvs")
  case True
  then obtain kvs where "reply = JObj kvs" by blast
  with assms show ?thesis
    by (simp add: sendChat_def sendChat_then_object split: option.splits)
next
  case False
  then have "sendChat_then reply = reply" by (intro sendChat_then_other) blast
  with assms False show ?thesis by (cases reply) (simp_all add: sendChat_def)
qed

text \<open>The example run ends with the wrapped reply, which \<open>sendChat\<close> unwraps.\<close>

theorem sendChat_unwraps_witness:
  "fst (sendChat example_env (JObj []) example_world) = Inr (JObj [(''result'', JStr ''Hello'')])"
proof -
  have s: "JSON_stringify example_env (JObj []) = ''{}''"
    by (simp add: example_env_def example_stringify_def)
  have "fst (http example_env ''/chatbot'' (post_init ''{}'') example_world) =
      Inr (JObj [(''success'', JBool True), (''data'', JObj [(''result'', JStr ''Hello'')])])"
    by (simp add: run_defs)
  then have "http example_env ''/chatbot'' (post_init (JSON_stringify example_env (JObj [])))
        example_world =
      (Inr (JObj [(''success'', JBool True), (''data'', JObj [(''result'', JStr ''Hello'')])]),
       snd (http example_env ''/chatbot'' (post_init ''{}'') example_world))"
    unfolding s by (simp add: prod_eq_iff)
  from sendChat_unwraps [OF this] show ?thesis by simp
qed

section \<open>Paging of property cards\<close>

lemma array_map_length: "array_map f xs = Inr ys \<Longrightarrow> length ys = length xs"
  by (simp add: array_map_Inr list_all2_lengthD)

lemma renderProperties_cards:
  "array_map (card_of tmpl) xs = Inr cards \<Longrightarrow>
   renderProperties tmpl pag xs remaining u =
     (Inr (''<div>'' @ concat cards @ show_more_button remaining @ ''</div>''),
      u\<lparr>show_more_onclick := Some pag\<rparr>)"
  by (simp add: renderProperties_def)

lemma show_more_button_shown: "show_more_button remaining \<noteq> [] \<longleftrightarrow> 0 < remaining"
  by (simp add: show_more_button_def)

text \<open>
  When the cards of its first three items (of all items when there are fewer) render to
  \<open>cards\<close>, the first page of a list holds these cards, as many as there are such items,
  and the button, announcing the rest, exactly when the list has more than three items.
\<close>

lemma first_page_cards:
  assumes "array_map (card_of tmpl) (take 3 list) = Inr cards"
  shows "first_page tmpl pag suffix list u =
     (Inr (), appendBot (found_text (length list) suffix)
        (Some (''<div>'' @ concat cards @ show_more_button (length list - 3) @ ''</div>''))
        None None (u\<lparr>show_more_onclick := Some pag\<rparr>))"
    and "length cards = min (length list) 3"
    and "show_more_button (length list - 3) \<noteq> [] \<longleftrightarrow> 3 < length list"
proof -
  show "first_page tmpl pag suffix list u =
     (Inr (), appendBot (found_text (length list) suffix)
        (Some (''<div>'' @ concat cards @ show_more_button (length list - 3) @ ''</div>''))
        None None (u\<lparr>show_more_onclick := Some pag\<rparr>))"
    using assms by (simp add: first_page_def slice_def renderProperties_cards Let_def)
  show "length cards = min (length list) 3"
    using array_map_length [OF assms] by simp
  show "show_more_button (length list - 3) \<noteq> [] \<longleftrightarrow> 3 < length list"
    by (simp add: show_more_button_shown)
qed

lemma slice_page:
  "slice start (min (start + k) (length xs)) xs = take k (drop start xs)"
  by (simp add: slice_def min_def)

text \<open>
  One call of \<open>showMore\<close> in a render that holds page \<open>p\<close> and three items per page: it
  does nothing when the list has at most \<open>3 * p\<close> items, and otherwise appends the cards
  of the items from index \<open>3 * p\<close> on (three at most) and sets the page of the state to
  \<open>p + 1\<close>. The \<open>pagination\<close> that the render holds is not changed by this.
\<close>

lemma showMore_page:
  assumes "array_map (card_of tmpl) (take 3 (drop (3 * currentPage pag) (allProperties u))) =
      Inr cards"
    and "itemsPerPage pag = 3"
  shows "showMore tmpl pag u =
     (if length (allProperties u) \<le> 3 * currentPage pag then (Inr (), u)
      else
        (Inr (),
         (appendBot []
            (Some (''<div>'' @ concat cards @
               show_more_button (length (allProperties u) - (3 * currentPage pag + 3)) @
               ''</div>'')) None None (u\<lparr>show_more_onclick := Some pag\<rparr>))
         \<lparr>pagination_state := (pagination_state u)\<lparr>currentPage := currentPage pag + 1\<rparr>\<rparr>))"
proof -
  let ?all = "allProperties u"
  let ?start = "3 * currentPage pag"
  have s: "slice (currentPage pag * 3) (min (currentPage pag * 3 + 3) (length ?all)) ?all =
      take 3 (drop ?start ?all)"
    using slice_page [of "currentPage pag * 3" 3 ?all] by (simp add: mult.commute)
  have r: "length ?all - min (currentPage pag * 3 + 3) (length ?all) = length ?all - (?start + 3)"
    by (simp add: min_def mult.commute)
  show ?thesis
    using assms(2)
    by (simp add: showMore_def Let_def s r renderProperties_cards [OF assms(1)])
qed

text \<open>
  A click after a call of \<open>showMore\<close> that rendered a page runs \<open>showMore\<close> of the same
  render, and appends the same page once more.
\<close>

lemma click_repeats_page:
  assumes "array_map (card_of tmpl) (take 3 (drop (3 * currentPage pag) (allProperties u))) =
      Inr cards"
    and "itemsPerPage pag = 3"
    and "3 * currentPage pag < length (allProperties u)"
  shows "\<exists>m. messages (snd (showMore tmpl pag u)) = messages u @ [m] \<and>
     messages (snd (click_show_more tmpl (snd (showMore tmpl pag u)))) = messages u @ [m, m]"
proof -
  let ?u1 = "snd (showMore tmpl pag u)"
  let ?h = "''<div>'' @ concat cards @
     show_more_button (length (allProperties u) - (3 * currentPage pag + 3)) @ ''</div>''"
  let ?m = "\<lparr>sender = Bot, msg_text = [], html = Some ?h, msg_buttons = None,
     msg_dropdown = None\<rparr>"
  have u1: "?u1 = (appendBot [] (Some ?h) None None (u\<lparr>show_more_onclick := Some pag\<rparr>))
       \<lparr>pagination_state := (pagination_state u)\<lparr>currentPage := currentPage pag + 1\<rparr>\<rparr>"
    using showMore_page [OF assms(1,2)] assms(3) by simp
  have a1: "allProperties ?u1 = allProperties u" "show_more_onclick ?u1 = Some pag"
    "messages ?u1 = messages u @ [?m]"
    unfolding u1 by (simp_all add: appendBot_def append_message_def)
  have c: "array_map (card_of tmpl) (take 3 (drop (3 * currentPage pag) (allProperties ?u1))) =
      Inr cards"
    using assms(1) a1(1) by simp
  have "click_show_more tmpl ?u1 = showMore tmpl pag ?u1"
    by (simp add: click_show_more_def a1(2))
  also have "\<dots> = (Inr (),
         (appendBot [] (Some ?h) None None (?u1\<lparr>show_more_onclick := Some pag\<rparr>))
         \<lparr>pagination_state := (pagination_state ?u1)\<lparr>currentPage := currentPage pag + 1\<rparr>\<rparr>)"
    using showMore_page [OF c assms(2)] assms(3) a1(1) by simp
  finally have "messages (snd (click_show_more tmpl ?u1)) = messages ?u1 @ [?m]"
    by (simp add: appendBot_def append_message_def)
  with a1(3) show ?thesis by simp
qed

lemma nullish_listing: "\<not> nullish (listing k)"
  by (simp add: nullish_def listing_def)

text \<open>
  C6. The first page of \<open>N\<close> properties holds \<open>min N 3\<close> cards, and the button announcing
  \<open>N - 3\<close> more exactly when \<open>N > 3\<close> (\<open>first_page_cards\<close>); a single call of \<open>showMore\<close>
  renders the at most three items after its page, or nothing when there are none
  (\<open>showMore_page\<close>). The calls that follow one another do not advance, though.
  \<open>renderProperties\<close> binds the button to \<open>showMore\<close> of the render that called it, and
  \<open>showMore\<close> calls \<open>renderProperties\<close> of that same render; the \<open>pagination\<close> of a render
  stays what it was, \<open>setPagination\<close> changes the state that later renders read. So every
  click runs \<open>showMore\<close> with the same page (\<open>click_repeats_page\<close>). On a reply with seven
  properties, handled in a render that holds page 1, with any template \<open>t\<close> that does not
  throw: the first page shows properties 1 to 3 and announces 4 more, a click shows 4 to
  6 and announces 1 more, and the next click shows 4 to 6 again; the page of the state is
  2 after either click, and property 7 is never shown.
\<close>

theorem show_more_repeats_page:
  "map html (messages (snd (click_show_more (\<lambda>x. Inr (t x))
      (snd (click_show_more (\<lambda>x. Inr (t x))
        (snd (sendPrompt_properties (\<lambda>x. Inr (t x)) \<lparr>currentPage = 1, itemsPerPage = 3\<rparr>
                seven_listings initial_ui))))))) =
     [Some (''<div>'' @ t (listing 1) @ t (listing 2) @ t (listing 3) @
            show_more_button 4 @ ''</div>''),
      Some (''<div>'' @ t (listing 4) @ t (listing 5) @ t (listing 6) @
            show_more_button 1 @ ''</div>''),
      Some (''<div>'' @ t (listing 4) @ t (listing 5) @ t (listing 6) @
            show_more_button 1 @ ''</div>'')] \<and>
   pagination_state (snd (click_show_more (\<lambda>x. Inr (t x))
      (snd (click_show_more (\<lambda>x. Inr (t x))
        (snd (sendPrompt_properties (\<lambda>x. Inr (t x)) \<lparr>currentPage = 1, itemsPerPage = 3\<rparr>
                seven_listings initial_ui)))))) = \<lparr>currentPage = 2, itemsPerPage = 3\<rparr>"
  by (simp add: sendPrompt_properties_def properties_of_def seven_listings_def reset_paging_def
      initial_ui_def first_page_def slice_def renderProperties_def card_of_def nullish_listing
      appendBot_def append_message_def click_show_more_def showMore_def
      Let_def eval_nat_numeral)

end
